theory Spec2Isabelle
  imports Main
begin

section \<open>Document nodes and the Python operations used on them\<close>

text \<open>
  A document node is a parsed JSON/YAML value. Python dictionaries keep insertion order
  and \<open>items()\<close> iterates in that order, so an object is an association list; Python's
  \<open>None\<close> is \<open>JNull\<close>. Numbers are the integers (floating-point numbers are not modelled).
\<close>

datatype json =
    JNull
  | JBool bool
  | JNum int
  | JStr string
  | JArr "json list"
  | JObj "(string \<times> json) list"

datatype exn =
    TypeError
  | KeyError
  | AttributeError
  | ValueError
  | RecursionError
  | RefResolutionError string

text \<open>\<open>isinstance(spec, dict)\<close>\<close>

fun is_dict :: "json \<Rightarrow> bool" where
  "is_dict (JObj kvs) = True"
| "is_dict v = False"

text \<open>\<open>key in d\<close> for a dictionary \<open>d\<close>.\<close>

definition has_key :: "(string \<times> json) list \<Rightarrow> string \<Rightarrow> bool" where
  "has_key kvs k = (k \<in> set (map fst kvs))"

text \<open>\<open>d.get(key, default)\<close> for a dictionary \<open>d\<close>.\<close>

definition dict_get :: "(string \<times> json) list \<Rightarrow> string \<Rightarrow> json \<Rightarrow> json" where
  "dict_get kvs k d = (case map_of kvs k of None \<Rightarrow> d | Some v \<Rightarrow> v)"

text \<open>
  \<open>x[key]\<close> with a string key: a dictionary looks the key up (\<open>KeyError\<close> when absent); a
  list or a string only takes integer indices, and the other values are not subscriptable.
\<close>

fun py_getitem :: "json \<Rightarrow> string \<Rightarrow> exn + json" where
  "py_getitem (JObj kvs) k = (case map_of kvs k of None \<Rightarrow> Inl KeyError | Some v \<Rightarrow> Inr v)"
| "py_getitem v k = Inl TypeError"

text \<open>\<open>def is_ref(spec): return isinstance(spec, dict) and '$ref' in spec\<close>\<close>

fun is_ref :: "json \<Rightarrow> bool" where
  "is_ref (JObj kvs) = has_key kvs ''$ref''"
| "is_ref v = False"

section \<open>The dereferencer\<close>

text \<open>
  The reference resolver is an external collaborator. Its scope stack is a list of base
  URIs with the top at the head. \<open>resolve\<close> is \<open>RefResolver.resolve\<close> under a given stack:
  the resolved URL and the target node, or the exception it raises. \<open>in_scope\<close> is the
  stack that \<open>ResolverManager.in_scope(item)\<close> puts in effect for the duration of its
  block; \<open>resolver.resolving(ref)\<close> pushes the resolved URL for the duration of its block.
  Both blocks restore the stack on exit, so a caller continues with the stack it had.
\<close>

type_synonym scope = "string list"

record resolver =
  resolve :: "scope \<Rightarrow> json \<Rightarrow> exn + string \<times> json"
  in_scope :: "json \<Rightarrow> scope \<Rightarrow> scope"

text \<open>
  \<open>Dereferencer.dereference\<close>, as the source has it: the recursion follows the reference
  chain and the source puts no bound on it, so the function is partial. \<open>None\<close> is a
  recursion that never ends, \<open>Some (Inl e)\<close> a call that raises \<open>e\<close>, \<open>Some (Inr v)\<close> a
  call that returns \<open>v\<close>. What the interpreter adds, a limit on nested calls, is in
  \<open>dereference_limited\<close> below; the two agree wherever the limit is not reached.
\<close>

partial_function (option) dereference ::
  "resolver \<Rightarrow> scope \<Rightarrow> json \<Rightarrow> (exn + json) option" where
  "dereference R sc item =
     (if item = JNull \<or> \<not> is_ref item then Some (Inr item)
      else case py_getitem item ''$ref'' of
          Inl e \<Rightarrow> Some (Inl e)
        | Inr ref \<Rightarrow>
            (case resolve R (in_scope R item sc) ref of
                Inl e \<Rightarrow> Some (Inl e)
              | Inr (url, target) \<Rightarrow>
                  if is_ref target then dereference R (url # in_scope R item sc) target
                  else Some (Inr target)))"

declare dereference.simps [code]

text \<open>The same body with a bound on the length of the chain that is followed.\<close>

fun dereference_within :: "nat \<Rightarrow> resolver \<Rightarrow> scope \<Rightarrow> json \<Rightarrow> (exn + json) option" where
  "dereference_within n R sc item =
     (if item = JNull \<or> \<not> is_ref item then Some (Inr item)
      else case py_getitem item ''$ref'' of
          Inl e \<Rightarrow> Some (Inl e)
        | Inr ref \<Rightarrow>
            (case resolve R (in_scope R item sc) ref of
                Inl e \<Rightarrow> Some (Inl e)
              | Inr (url, target) \<Rightarrow>
                  if is_ref target then
                    (case n of 0 \<Rightarrow> None
                     | Suc m \<Rightarrow> dereference_within m R (url # in_scope R item sc) target)
                  else Some (Inr target)))"

text \<open>
  The call as CPython runs it. The interpreter allows a bounded number of nested calls
  (\<open>sys.getrecursionlimit()\<close>), and a call that would exceed the bound raises
  \<open>RecursionError\<close>. The first argument is the number of nested calls of \<open>dereference\<close>
  that the interpreter still allows, the call itself included. The body is the source's.
\<close>

fun dereference_limited :: "nat \<Rightarrow> resolver \<Rightarrow> scope \<Rightarrow> json \<Rightarrow> exn + json" where
  "dereference_limited 0 R sc item = Inl RecursionError"
| "dereference_limited (Suc n) R sc item =
     (if item = JNull \<or> \<not> is_ref item then Inr item
      else case py_getitem item ''$ref'' of
          Inl e \<Rightarrow> Inl e
        | Inr ref \<Rightarrow>
            (case resolve R (in_scope R item sc) ref of
                Inl e \<Rightarrow> Inl e
              | Inr (url, target) \<Rightarrow>
                  if is_ref target then dereference_limited n R (url # in_scope R item sc) target
                  else Inr target))"



section \<open>More of Python's operations on document nodes\<close>

text \<open>
  Python's \<open>==\<close> on parsed JSON values: \<open>bool\<close> is a subclass of \<open>int\<close> (\<open>True == 1\<close>), lists
  compare element by element, dictionaries compare as sets of entries.
\<close>

fun py_eq :: "json \<Rightarrow> json \<Rightarrow> bool" where
  "py_eq JNull JNull = True"
| "py_eq (JBool a) (JBool b) = (a = b)"
| "py_eq (JBool a) (JNum n) = (n = (if a then 1 else 0))"
| "py_eq (JNum n) (JBool a) = (n = (if a then 1 else 0))"
| "py_eq (JNum m) (JNum n) = (m = n)"
| "py_eq (JStr s) (JStr t) = (s = t)"
| "py_eq (JArr xs) (JArr ys) = list_all2 py_eq xs ys"
| "py_eq (JObj kvs) (JObj kws) =
     (length kvs = length kws \<and>
      list_all (\<lambda>kv. case map_of kws (fst kv) of None \<Rightarrow> False | Some w \<Rightarrow> py_eq (snd kv) w) kvs)"
| "py_eq v w = False"

text \<open>\<open>x in xs\<close> for a list \<open>xs\<close>, and for a set once \<open>x\<close> has been hashed.\<close>

definition py_mem :: "json \<Rightarrow> json list \<Rightarrow> bool" where
  "py_mem x xs = list_ex (py_eq x) xs"

text \<open>Lists and dictionaries are unhashable: putting one into a set raises \<open>TypeError\<close>.\<close>

fun py_hashable :: "json \<Rightarrow> bool" where
  "py_hashable (JArr xs) = False"
| "py_hashable (JObj kvs) = False"
| "py_hashable v = True"

text \<open>Truth value, as in \<open>x or []\<close>.\<close>

fun py_truthy :: "json \<Rightarrow> bool" where
  "py_truthy JNull = False"
| "py_truthy (JBool b) = b"
| "py_truthy (JNum n) = (n \<noteq> 0)"
| "py_truthy (JStr s) = (s \<noteq> [])"
| "py_truthy (JArr xs) = (xs \<noteq> [])"
| "py_truthy (JObj kvs) = (kvs \<noteq> [])"

text \<open>Substring test, \<open>k in s\<close> for two strings.\<close>

fun starts_with :: "string \<Rightarrow> string \<Rightarrow> bool" where
  "starts_with [] s = True"
| "starts_with (c # cs) [] = False"
| "starts_with (c # cs) (d # ds) = (c = d \<and> starts_with cs ds)"

fun py_substring :: "string \<Rightarrow> string \<Rightarrow> bool" where
  "py_substring k [] = starts_with k []"
| "py_substring k (d # ds) = (starts_with k (d # ds) \<or> py_substring k ds)"

section \<open>Outcomes and error streams\<close>

text \<open>
  A call returns a value, raises an exception, or does not return. \<open>Diverges\<close> is a call
  whose dereferencing follows a reference chain that never ends (the interpreter ends such
  a call with \<open>RecursionError\<close>, see \<open>dereference_limited\<close>); \<open>OutOfFuel\<close> marks a run cut
  off by the bound on the nesting of \<open>allOf\<close> recursion (the source has no such bound: a run
  is a run of the source where its outcome is not \<open>OutOfFuel\<close>).
\<close>

datatype 'a outcome = Returns 'a | Raises exn | Diverges | OutOfFuel

text \<open>
  A generator run to its end: the errors it yields, in order, and how the run ended.
  Errors yielded before an exception or a divergence are part of the run, as a consumer
  pulling from the lazy sequence sees them.
\<close>

type_synonym ('e, 'a) gen = "'e list \<times> 'a outcome"

definition g_ret :: "'a \<Rightarrow> ('e, 'a) gen" where
  "g_ret a = ([], Returns a)"

definition g_yield :: "'e \<Rightarrow> ('e, unit) gen" where
  "g_yield e = ([e], Returns ())"

definition g_lift :: "'a outcome \<Rightarrow> ('e, 'a) gen" where
  "g_lift r = ([], r)"

fun continue_with :: "'a outcome \<Rightarrow> ('a \<Rightarrow> ('e, 'b) gen) \<Rightarrow> ('e, 'b) gen" where
  "continue_with (Returns a) f = f a"
| "continue_with (Raises x) f = ([], Raises x)"
| "continue_with Diverges f = ([], Diverges)"
| "continue_with OutOfFuel f = ([], OutOfFuel)"

text \<open>Sequencing: the rest of the body runs only if the first part returns.\<close>

definition g_bind :: "('e, 'a) gen \<Rightarrow> ('a \<Rightarrow> ('e, 'b) gen) \<Rightarrow> ('e, 'b) gen" where
  "g_bind m f = (fst m @ fst (continue_with (snd m) f), snd (continue_with (snd m) f))"

text \<open>\<open>for x in xs: body\<close> in a generator without shared state.\<close>

primrec for_each :: "'a list \<Rightarrow> ('a \<Rightarrow> ('e, unit) gen) \<Rightarrow> ('e, unit) gen" where
  "for_each [] body = g_ret ()"
| "for_each (x # xs) body = g_bind (body x) (\<lambda>_. for_each xs body)"

text \<open>
  Generators that mutate a shared object (the operation-id registry, a local \<open>seen\<close> set):
  the state is passed in and the state left behind is returned, also when the run raises.
\<close>

type_synonym ('e, 's, 'a) sgen = "'s \<Rightarrow> ('e, 'a) gen \<times> 's"

definition s_ret :: "'a \<Rightarrow> ('e, 's, 'a) sgen" where
  "s_ret a = (\<lambda>s. (g_ret a, s))"

definition s_lift :: "('e, 'a) gen \<Rightarrow> ('e, 's, 'a) sgen" where
  "s_lift g = (\<lambda>s. (g, s))"

fun s_continue_with ::
  "'a outcome \<Rightarrow> ('a \<Rightarrow> ('e, 's, 'b) sgen) \<Rightarrow> ('e, 's, 'b) sgen" where
  "s_continue_with (Returns a) f s = f a s"
| "s_continue_with (Raises x) f s = (([], Raises x), s)"
| "s_continue_with Diverges f s = (([], Diverges), s)"
| "s_continue_with OutOfFuel f s = (([], OutOfFuel), s)"

definition s_bind :: "('e, 's, 'a) sgen \<Rightarrow> ('a \<Rightarrow> ('e, 's, 'b) sgen) \<Rightarrow> ('e, 's, 'b) sgen" where
  "s_bind m f = (\<lambda>s.
     let r = s_continue_with (snd (fst (m s))) f (snd (m s))
     in ((fst (fst (m s)) @ fst (fst r), snd (fst r)), snd r))"

primrec s_for_each :: "'a list \<Rightarrow> ('a \<Rightarrow> ('e, 's, unit) sgen) \<Rightarrow> ('e, 's, unit) sgen" where
  "s_for_each [] body = s_ret ()"
| "s_for_each (x # xs) body = s_bind (body x) (\<lambda>_. s_for_each xs body)"

text \<open>Plain calls (no errors yielded): sequencing on outcomes.\<close>

fun o_bind :: "'a outcome \<Rightarrow> ('a \<Rightarrow> 'b outcome) \<Rightarrow> 'b outcome" where
  "o_bind (Returns a) f = f a"
| "o_bind (Raises x) f = Raises x"
| "o_bind Diverges f = Diverges"
| "o_bind OutOfFuel f = OutOfFuel"

fun of_sum :: "exn + 'a \<Rightarrow> 'a outcome" where
  "of_sum (Inl x) = Raises x"
| "of_sum (Inr a) = Returns a"

text \<open>
  Iterating a value (\<open>for x in v\<close>, \<open>set(v)\<close>, \<open>list(v)\<close>): a list gives its elements, a
  dictionary its keys, a string its characters; the other values are not iterable.
\<close>

fun py_iter :: "json \<Rightarrow> json list outcome" where
  "py_iter (JArr xs) = Returns xs"
| "py_iter (JObj kvs) = Returns (map (\<lambda>kv. JStr (fst kv)) kvs)"
| "py_iter (JStr s) = Returns (map (\<lambda>c. JStr [c]) s)"
| "py_iter v = Raises TypeError"

text \<open>\<open>v.get(key, default)\<close>, \<open>v.items()\<close>, \<open>v.keys()\<close>: only a dictionary has these methods.\<close>

fun py_get :: "json \<Rightarrow> string \<Rightarrow> json \<Rightarrow> json outcome" where
  "py_get (JObj kvs) k d = Returns (dict_get kvs k d)"
| "py_get v k d = Raises AttributeError"

fun py_items :: "json \<Rightarrow> (string \<times> json) list outcome" where
  "py_items (JObj kvs) = Returns kvs"
| "py_items v = Raises AttributeError"

fun py_keys :: "json \<Rightarrow> json list outcome" where
  "py_keys (JObj kvs) = Returns (map (\<lambda>kv. JStr (fst kv)) kvs)"
| "py_keys v = Raises AttributeError"

text \<open>\<open>key in v\<close> with a string key.\<close>

fun py_contains :: "string \<Rightarrow> json \<Rightarrow> bool outcome" where
  "py_contains k (JObj kvs) = Returns (has_key kvs k)"
| "py_contains k (JArr xs) = Returns (py_mem (JStr k) xs)"
| "py_contains k (JStr s) = Returns (py_substring k s)"
| "py_contains k v = Raises TypeError"

text \<open>
  \<open>set(xs)\<close>: every element is hashed (\<open>TypeError\<close> on an unhashable one); equal elements
  are kept once. A set is represented by the list of its elements, without duplicates;
  Python's iteration order over a set is unspecified, so only the elements of that list
  are meaningful, not their order.
\<close>

primrec py_dedupe :: "json list \<Rightarrow> json list \<Rightarrow> json list" where
  "py_dedupe acc [] = acc"
| "py_dedupe acc (x # xs) = py_dedupe (if py_mem x acc then acc else acc @ [x]) xs"

definition py_set :: "json list \<Rightarrow> json list outcome" where
  "py_set xs = (if list_all py_hashable xs then Returns (py_dedupe [] xs) else Raises TypeError)"

section \<open>Errors\<close>

text \<open>
  \<open>ValidationError\<close> is an error of the generic schema-conformance engine as it yields it
  (its content \<open>'v\<close> is the engine's own). The other constructors are
  \<open>OpenAPIValidationError\<close> and its subclasses; the payloads are the values that the source
  formats into the message.
\<close>

datatype 'v error =
    ValidationError 'v
  | OpenAPIValidationError 'v
  | ExtraParametersError "json list"
  | ParameterDuplicateError json
  | UnresolvableParameterError string string string
  | DuplicateOperationIDError json string string

text \<open>
  Modelled from the spec: the decorator \<open>wraps_errors = ValidationErrorWrapper(OpenAPIValidationError)\<close>
  (\<open>decorators.py\<close> is not among the sources). It forwards the findings of the decorated
  generator verbatim and in order, turning an error that is not an
  \<open>OpenAPIValidationError\<close> into one, without altering the others.
\<close>

fun wrap_error :: "'v error \<Rightarrow> 'v error" where
  "wrap_error (ValidationError v) = OpenAPIValidationError v"
| "wrap_error e = e"

definition wraps_errors :: "('v error, 'a) gen \<Rightarrow> ('v error, 'a) gen" where
  "wraps_errors g = (map wrap_error (fst g), snd g)"

section \<open>The validators\<close>

text \<open>
  The external collaborators: \<open>OAS31Validator\<close> is the run of
  \<open>OAS31Validator(schema, resolver=..., format_checker=...).iter_errors(value)\<close> under the
  resolver's scope stack; \<open>Formatter_parse\<close> gives the field names of the items of
  \<open>string.Formatter().parse(url)\<close>, or the exception that parsing raises.
\<close>

record 'v externals =
  OAS31Validator :: "resolver \<Rightarrow> scope \<Rightarrow> json \<Rightarrow> json \<Rightarrow> ('v, unit) gen"
  Formatter_parse :: "string \<Rightarrow> string option list outcome"

text \<open>
  A \<open>Dereferencer\<close> holds the resolver; \<open>scopes_stack\<close> is the resolver's scope stack at
  the time the validators run (every \<open>dereference\<close> call leaves it as it found it).
\<close>

record dereferencer =
  resolver_manager :: resolver
  scopes_stack :: scope

definition deref :: "dereferencer \<Rightarrow> json \<Rightarrow> json outcome" where
  "deref D item =
     (case dereference (resolver_manager D) (scopes_stack D) item of
        None \<Rightarrow> Diverges
      | Some (Inl x) \<Rightarrow> Raises x
      | Some (Inr v) \<Rightarrow> Returns v)"

text \<open>\<open>ValueValidator.iter_errors\<close>\<close>

definition ValueValidator_iter_errors ::
  "'v externals \<Rightarrow> dereferencer \<Rightarrow> json \<Rightarrow> json \<Rightarrow> ('v error, unit) gen" where
  "ValueValidator_iter_errors X D schema value =
     wraps_errors
       (let run = OAS31Validator X (resolver_manager D) (scopes_stack D) schema value
        in (map ValidationError (fst run), snd run))"

text \<open>
  \<open>SchemaValidator.iter_errors\<close>, lines 137 to 145: the \<open>required\<close>/\<open>properties\<close> check on the
  dereferenced schema object.
\<close>

definition iter_required_errors :: "(string \<times> json) list \<Rightarrow> bool \<Rightarrow> ('v error, unit) gen" where
  "iter_required_errors schema_deref require_properties =
     (let required = dict_get schema_deref ''required'' (JArr [])
      in g_bind (g_lift (py_keys (dict_get schema_deref ''properties'' (JObj [])))) (\<lambda>properties.
         g_bind (g_lift (o_bind (py_iter required) py_set)) (\<lambda>required_set.
           let extra_properties = filter (\<lambda>x. \<not> py_mem x properties) required_set
           in if extra_properties \<noteq> [] \<and> require_properties
              then g_yield (ExtraParametersError extra_properties)
              else g_ret ())))"

text \<open>\<open>SchemaValidator.iter_errors\<close>, lines 147 to 152: the declared default.\<close>

definition iter_default_errors ::
  "'v externals \<Rightarrow> dereferencer \<Rightarrow> (string \<times> json) list \<Rightarrow> ('v error, unit) gen" where
  "iter_default_errors X D schema_deref =
     (if has_key schema_deref ''default'' then
        g_bind (g_lift (of_sum (py_getitem (JObj schema_deref) ''default''))) (\<lambda>default.
          let nullable = dict_get schema_deref ''nullable'' (JBool False)
          in if default \<noteq> JNull \<or> nullable \<noteq> JBool True
             then ValueValidator_iter_errors X D (JObj schema_deref) default
             else g_ret ())
      else g_ret ())"

text \<open>
  \<open>SchemaValidator.iter_errors\<close>. The members of \<open>allOf\<close> are dereferenced before they are
  validated, so the recursion is not bounded by the size of the schema (a schema may reach
  itself through a reference): the first argument bounds the nesting of the recursion.
\<close>

fun SchemaValidator_iter_errors ::
  "'v externals \<Rightarrow> dereferencer \<Rightarrow> nat \<Rightarrow> json \<Rightarrow> bool \<Rightarrow> ('v error, unit) gen" where
  "SchemaValidator_iter_errors X D 0 schema require_properties = ([], OutOfFuel)"
| "SchemaValidator_iter_errors X D (Suc n) schema require_properties =
     wraps_errors
       (g_bind (g_lift (deref D schema)) (\<lambda>schema_deref.
          case schema_deref of
            JObj kvs \<Rightarrow>
              g_bind
                (if has_key kvs ''allOf'' then
                   g_bind (g_lift (o_bind (of_sum (py_getitem schema_deref ''allOf'')) py_iter))
                     (\<lambda>members. for_each members
                        (\<lambda>inner_schema. SchemaValidator_iter_errors X D n inner_schema False))
                 else g_ret ())
                (\<lambda>_. g_bind (iter_required_errors kvs require_properties)
                   (\<lambda>_. iter_default_errors X D kvs))
          | _ \<Rightarrow> g_ret ()))"

text \<open>The \<open>allOf\<close> block of \<open>SchemaValidator.iter_errors\<close> (lines 129 to 135), named.\<close>

definition iter_allOf_errors ::
  "'v externals \<Rightarrow> dereferencer \<Rightarrow> nat \<Rightarrow> (string \<times> json) list \<Rightarrow> ('v error, unit) gen" where
  "iter_allOf_errors X D n kvs =
     (if has_key kvs ''allOf'' then
        g_bind (g_lift (o_bind (of_sum (py_getitem (JObj kvs) ''allOf'')) py_iter))
          (\<lambda>members. for_each members
             (\<lambda>inner_schema. SchemaValidator_iter_errors X D n inner_schema False))
      else g_ret ())"

text \<open>
  What the \<open>required\<close>/\<open>properties\<close> check computes as \<open>extra_properties\<close> when \<open>required\<close>
  is a list of strings and \<open>properties\<close> a dictionary.
\<close>

definition extra_of :: "string list \<Rightarrow> (string \<times> json) list \<Rightarrow> json list" where
  "extra_of required properties =
     filter (\<lambda>x. \<not> py_mem x (map (\<lambda>kv. JStr (fst kv)) properties))
       (py_dedupe [] (map JStr required))"

text \<open>\<open>ParameterValidator.iter_errors\<close>\<close>

definition ParameterValidator_iter_errors ::
  "'v externals \<Rightarrow> dereferencer \<Rightarrow> nat \<Rightarrow> json \<Rightarrow> ('v error, unit) gen" where
  "ParameterValidator_iter_errors X D n parameter =
     wraps_errors
       (g_bind (g_lift (py_contains ''schema'' parameter)) (\<lambda>has_schema.
        g_bind
          (if has_schema then
             g_bind (g_lift (of_sum (py_getitem parameter ''schema''))) (\<lambda>schema.
             g_bind (g_lift (deref D schema)) (\<lambda>schema_deref.
               SchemaValidator_iter_errors X D n schema_deref True))
           else g_ret ())
          (\<lambda>_.
        g_bind (g_lift (py_contains ''default'' parameter)) (\<lambda>has_default.
          if has_default then
            g_bind (g_lift (of_sum (py_getitem parameter ''default''))) (\<lambda>default.
              if default \<noteq> JNull then ValueValidator_iter_errors X D parameter default
              else g_ret ())
          else g_ret ()))))"

text \<open>
  \<open>ParametersValidator.iter_errors\<close>. \<open>seen\<close> is the local set of \<open>(name, in)\<close> tuples;
  looking a tuple up in the set hashes both components.
\<close>

definition key_mem :: "json \<times> json \<Rightarrow> (json \<times> json) list \<Rightarrow> bool" where
  "key_mem key seen = list_ex (\<lambda>k. py_eq (fst key) (fst k) \<and> py_eq (snd key) (snd k)) seen"

definition iter_parameter_in_list ::
  "'v externals \<Rightarrow> dereferencer \<Rightarrow> nat \<Rightarrow> json \<Rightarrow> ('v error, (json \<times> json) list, unit) sgen" where
  "iter_parameter_in_list X D n parameter =
     s_bind (s_lift (g_lift (deref D parameter))) (\<lambda>parameter_deref.
     s_bind (s_lift (ParameterValidator_iter_errors X D n parameter_deref)) (\<lambda>_.
     s_bind (s_lift (g_lift (of_sum (py_getitem parameter_deref ''name'')))) (\<lambda>name.
     s_bind (s_lift (g_lift (of_sum (py_getitem parameter_deref ''in'')))) (\<lambda>location.
     s_bind (s_lift (g_lift
               (if py_hashable name \<and> py_hashable location then Returns () else Raises TypeError)))
       (\<lambda>_.
     s_bind (\<lambda>seen. (if key_mem (name, location) seen
                      then g_yield (ParameterDuplicateError name) else g_ret (), seen)) (\<lambda>_.
       (\<lambda>seen. (g_ret (),
                 if key_mem (name, location) seen then seen else seen @ [(name, location)]))))))))"

definition ParametersValidator_iter_errors ::
  "'v externals \<Rightarrow> dereferencer \<Rightarrow> nat \<Rightarrow> json \<Rightarrow> ('v error, unit) gen" where
  "ParametersValidator_iter_errors X D n parameters =
     wraps_errors
       (g_bind (g_lift (py_iter parameters)) (\<lambda>ps.
          fst (s_for_each ps (iter_parameter_in_list X D n) [])))"

text \<open>\<open>OperationValidator._get_path_param_names\<close>, collected into a list.\<close>

primrec path_param_names_of :: "dereferencer \<Rightarrow> json list \<Rightarrow> json list outcome" where
  "path_param_names_of D [] = Returns []"
| "path_param_names_of D (param # params) =
     o_bind (deref D param) (\<lambda>param_deref.
     o_bind (of_sum (py_getitem param_deref ''in'')) (\<lambda>location.
     o_bind (if py_eq location (JStr ''path'')
             then o_bind (of_sum (py_getitem param_deref ''name'')) (\<lambda>name. Returns [name])
             else Returns []) (\<lambda>names.
     o_bind (path_param_names_of D params) (\<lambda>rest. Returns (names @ rest)))))"

definition get_path_param_names :: "dereferencer \<Rightarrow> json \<Rightarrow> json list outcome" where
  "get_path_param_names D params = o_bind (py_iter params) (path_param_names_of D)"

text \<open>\<open>OperationValidator._get_path_params_from_url\<close>: \<open>filter(None, ...)\<close> drops the items
  without a field and the fields with an empty name.\<close>

definition get_path_params_from_url :: "'v externals \<Rightarrow> string \<Rightarrow> string list outcome" where
  "get_path_params_from_url X url =
     o_bind (Formatter_parse X url) (\<lambda>path_params.
       Returns (concat (map (\<lambda>item. case item of None \<Rightarrow> [] | Some f \<Rightarrow> if f = [] then [] else [f])
                  path_params)))"

text \<open>
  \<open>OperationValidator.iter_errors\<close>, lines 253 to 267: the operation's own parameters and
  the placeholders of the URL template.
\<close>

definition iter_operation_parameters_errors ::
  "'v externals \<Rightarrow> dereferencer \<Rightarrow> nat \<Rightarrow> string \<Rightarrow> string \<Rightarrow> json \<Rightarrow> json \<Rightarrow>
     ('v error, unit) gen" where
  "iter_operation_parameters_errors X D n url name operation_deref path_parameters =
     g_bind (g_lift (py_get operation_deref ''parameters'' (JArr []))) (\<lambda>parameters.
     g_bind (ParametersValidator_iter_errors X D n parameters) (\<lambda>_.
     g_bind (g_lift
               (o_bind (get_path_param_names D path_parameters) (\<lambda>names1.
                o_bind (get_path_param_names D parameters) (\<lambda>names2.
                  py_set (names1 @ names2))))) (\<lambda>all_params.
     g_bind (g_lift (get_path_params_from_url X url)) (\<lambda>paths.
       for_each paths (\<lambda>path.
         if \<not> py_mem (JStr path) all_params
         then g_yield (UnresolvableParameterError path name url)
         else g_ret ())))))"

text \<open>\<open>OperationValidator.iter_errors\<close>; the state is the shared list \<open>seen_ids\<close>.\<close>

definition OperationValidator_iter_errors ::
  "'v externals \<Rightarrow> dereferencer \<Rightarrow> nat \<Rightarrow> string \<Rightarrow> string \<Rightarrow> json \<Rightarrow> json \<Rightarrow>
     ('v error, json list, unit) sgen" where
  "OperationValidator_iter_errors X D n url name operation path_parameters0 =
     (\<lambda>seen_ids0.
        let (g, seen_ids) =
          (let path_parameters = (if py_truthy path_parameters0 then path_parameters0 else JArr [])
           in
           s_bind (s_lift (g_lift (deref D operation))) (\<lambda>operation_deref.
           s_bind (s_lift (g_lift (py_get operation_deref ''operationId'' JNull))) (\<lambda>operation_id.
           s_bind (\<lambda>seen_ids.
                     (if operation_id \<noteq> JNull \<and> py_mem operation_id seen_ids
                      then g_yield (DuplicateOperationIDError operation_id name url)
                      else g_ret (), seen_ids)) (\<lambda>_.
           s_bind (\<lambda>seen_ids. (g_ret (), seen_ids @ [operation_id])) (\<lambda>_.
           s_lift
             (iter_operation_parameters_errors X D n url name operation_deref
                path_parameters)))))) seen_ids0
        in (wraps_errors g, seen_ids))"

text \<open>\<open>PathItemValidator\<close>\<close>

definition OPERATIONS :: "string list" where
  "OPERATIONS = [''get'', ''put'', ''post'', ''delete'', ''options'', ''head'', ''patch'', ''trace'']"

definition PathItemValidator_iter_errors ::
  "'v externals \<Rightarrow> dereferencer \<Rightarrow> nat \<Rightarrow> string \<Rightarrow> json \<Rightarrow> ('v error, json list, unit) sgen" where
  "PathItemValidator_iter_errors X D n url path_item =
     (\<lambda>registry0.
        let (g, registry) =
          (s_bind (s_lift (g_lift (deref D path_item))) (\<lambda>path_item_deref.
           s_bind (s_lift (g_lift (py_get path_item_deref ''parameters'' (JArr [])))) (\<lambda>parameters.
           s_bind (s_lift (ParametersValidator_iter_errors X D n parameters)) (\<lambda>_.
           s_bind (s_lift (g_lift (py_items path_item))) (\<lambda>items.
             s_for_each items (\<lambda>field.
               if fst field \<notin> set OPERATIONS then s_ret ()
               else OperationValidator_iter_errors X D n url (fst field) (snd field)
                      parameters)))))) registry0
        in (wraps_errors g, registry))"

text \<open>\<open>PathValidator\<close> and \<open>PathsValidator\<close>\<close>

definition PathValidator_iter_errors ::
  "'v externals \<Rightarrow> dereferencer \<Rightarrow> nat \<Rightarrow> string \<Rightarrow> json \<Rightarrow> ('v error, json list, unit) sgen" where
  "PathValidator_iter_errors X D n url path_item =
     (\<lambda>registry0.
        let (g, registry) =
          (s_bind (s_lift (g_lift (deref D path_item))) (\<lambda>path_item_deref.
             PathItemValidator_iter_errors X D n url path_item_deref)) registry0
        in (wraps_errors g, registry))"

definition PathsValidator_iter_errors ::
  "'v externals \<Rightarrow> dereferencer \<Rightarrow> nat \<Rightarrow> json \<Rightarrow> ('v error, json list, unit) sgen" where
  "PathsValidator_iter_errors X D n paths =
     (\<lambda>registry0.
        let (g, registry) =
          (s_bind (s_lift (g_lift (deref D paths))) (\<lambda>paths_deref.
           s_bind (s_lift (g_lift (py_items paths_deref))) (\<lambda>items.
             s_for_each items (\<lambda>entry.
               PathValidator_iter_errors X D n (fst entry) (snd entry))))) registry0
        in (wraps_errors g, registry))"

text \<open>\<open>SchemasValidator\<close> and \<open>ComponentsValidator\<close>\<close>

definition SchemasValidator_iter_errors ::
  "'v externals \<Rightarrow> dereferencer \<Rightarrow> nat \<Rightarrow> json \<Rightarrow> ('v error, unit) gen" where
  "SchemasValidator_iter_errors X D n schemas =
     wraps_errors
       (g_bind (g_lift (deref D schemas)) (\<lambda>schemas_deref.
        g_bind (g_lift (py_items schemas_deref)) (\<lambda>items.
          for_each items (\<lambda>entry. SchemaValidator_iter_errors X D n (snd entry) True))))"

definition ComponentsValidator_iter_errors ::
  "'v externals \<Rightarrow> dereferencer \<Rightarrow> nat \<Rightarrow> json \<Rightarrow> ('v error, unit) gen" where
  "ComponentsValidator_iter_errors X D n components =
     wraps_errors
       (g_bind (g_lift (deref D components)) (\<lambda>components_deref.
        g_bind (g_lift (py_get components_deref ''schemas'' (JObj []))) (\<lambda>schemas.
          SchemasValidator_iter_errors X D n schemas)))"

text \<open>
  \<open>SpecValidator\<close>. \<open>RefResolver\<close> is the construction \<open>RefResolver(base_uri, referrer,
  handlers=self.resolver_handlers)\<close>, whose scope stack starts as \<open>[base_uri]\<close>;
  \<open>validator_factory\<close> is the run of \<open>self.validator_factory.create(spec_resolver).iter_errors(spec)\<close>.
  A fresh \<open>PathsValidator\<close> starts with an empty registry.
\<close>

record 'v SpecValidator =
  validator_factory :: "resolver \<Rightarrow> json \<Rightarrow> ('v, unit) gen"
  RefResolver :: "string \<Rightarrow> json \<Rightarrow> resolver"
  library :: "'v externals"

definition SpecValidator_iter_errors ::
  "'v SpecValidator \<Rightarrow> nat \<Rightarrow> json \<Rightarrow> string \<Rightarrow> ('v error, unit) gen" where
  "SpecValidator_iter_errors V n spec spec_url =
     (let spec_resolver = RefResolver V spec_url spec;
          dereferencer = \<lparr>resolver_manager = spec_resolver, scopes_stack = [spec_url]\<rparr>;
          run = validator_factory V spec_resolver spec
      in wraps_errors
           (g_bind (map ValidationError (fst run), snd run) (\<lambda>_.
            g_bind (g_lift (py_get spec ''paths'' (JObj []))) (\<lambda>paths.
            g_bind (fst (PathsValidator_iter_errors (library V) dereferencer n paths [])) (\<lambda>_.
            g_bind (g_lift (py_get spec ''components'' (JObj []))) (\<lambda>components.
              ComponentsValidator_iter_errors (library V) dereferencer n components))))))"

text \<open>
  \<open>SpecValidator.validate\<close>: \<open>for err in self.iter_errors(...): raise err\<close>. The loop pulls
  the first item of the lazy sequence: a yielded error is raised at once; a sequence that
  ends without an item lets \<open>validate\<close> return; an exception (or a divergence) met before
  the first item is the outcome of \<open>validate\<close> itself.
\<close>

datatype 'v validate_outcome =
    ReturnsNone
  | RaisesError "'v error"
  | Propagates exn
  | NeverReturns
  | FuelExhausted

fun first_pull :: "('v error, unit) gen \<Rightarrow> 'v validate_outcome" where
  "first_pull (err # errs, out) = RaisesError err"
| "first_pull ([], Returns u) = ReturnsNone"
| "first_pull ([], Raises x) = Propagates x"
| "first_pull ([], Diverges) = NeverReturns"
| "first_pull ([], OutOfFuel) = FuelExhausted"

definition validate :: "'v SpecValidator \<Rightarrow> nat \<Rightarrow> json \<Rightarrow> string \<Rightarrow> 'v validate_outcome" where
  "validate V n spec spec_url = first_pull (SpecValidator_iter_errors V n spec spec_url)"

section \<open>Well-formed parameters\<close>

text \<open>
  A parameter node that dereferences to an object whose \<open>name\<close> and \<open>in\<close> are the two given
  strings.
\<close>

definition param_declares :: "dereferencer \<Rightarrow> json \<Rightarrow> string \<times> string \<Rightarrow> bool" where
  "param_declares D p key =
     (case deref D p of
        Returns pd \<Rightarrow>
          py_getitem pd ''name'' = Inr (JStr (fst key)) \<and> py_getitem pd ''in'' = Inr (JStr (snd key))
      | _ \<Rightarrow> False)"

text \<open>Such a parameter whose own validation (\<open>ParameterValidator\<close>) runs to its end.\<close>

definition param_has_key ::
  "'v externals \<Rightarrow> dereferencer \<Rightarrow> nat \<Rightarrow> json \<Rightarrow> string \<times> string \<Rightarrow> bool" where
  "param_has_key X D n p key =
     (case deref D p of
        Returns pd \<Rightarrow>
          snd (ParameterValidator_iter_errors X D n pd) = Returns ()
          \<and> py_getitem pd ''name'' = Inr (JStr (fst key))
          \<and> py_getitem pd ''in'' = Inr (JStr (snd key))
      | _ \<Rightarrow> False)"

text \<open>The placeholders that \<open>_get_path_params_from_url\<close> keeps of the parsed items.\<close>

definition placeholders :: "string option list \<Rightarrow> string list" where
  "placeholders path_params =
     concat (map (\<lambda>item. case item of None \<Rightarrow> [] | Some f \<Rightarrow> if f = [] then [] else [f])
       path_params)"

section \<open>Error kinds\<close>

fun is_ExtraParametersError :: "'v error \<Rightarrow> bool" where
  "is_ExtraParametersError (ExtraParametersError names) = True"
| "is_ExtraParametersError e = False"

fun is_ParameterDuplicateError :: "'v error \<Rightarrow> bool" where
  "is_ParameterDuplicateError (ParameterDuplicateError name) = True"
| "is_ParameterDuplicateError e = False"

fun is_UnresolvableParameterError :: "'v error \<Rightarrow> bool" where
  "is_UnresolvableParameterError (UnresolvableParameterError path name url) = True"
| "is_UnresolvableParameterError e = False"

fun is_DuplicateOperationIDError :: "'v error \<Rightarrow> bool" where
  "is_DuplicateOperationIDError (DuplicateOperationIDError operation_id name url) = True"
| "is_DuplicateOperationIDError e = False"

text \<open>An error that \<open>wraps_errors\<close> leaves as it is.\<close>

fun is_wrapped :: "'v error \<Rightarrow> bool" where
  "is_wrapped (ValidationError v) = False"
| "is_wrapped e = True"

section \<open>Example collaborators\<close>

text \<open>
  The field names of a URL template whose only markup is \<open>{name}\<close> placeholders, as
  \<open>string.Formatter().parse\<close> gives them: one item per placeholder, and a last item without
  a field for trailing literal text. Other uses of braces (\<open>{{\<close>, \<open>}}\<close>, format specs,
  conversions, indexing) are outside this example parser, which answers \<open>ValueError\<close>.
\<close>

fun plain_fields :: "bool \<Rightarrow> string \<Rightarrow> string option list outcome"
  and plain_field :: "string \<Rightarrow> string \<Rightarrow> string option list outcome" where
  "plain_fields pending [] = Returns (if pending then [None] else [])"
| "plain_fields pending (c # cs) =
     (if c = CHR ''{'' then plain_field [] cs
      else if c = CHR ''}'' then Raises ValueError
      else plain_fields True cs)"
| "plain_field name [] = Raises ValueError"
| "plain_field name (c # cs) =
     (if c = CHR ''}'' then o_bind (plain_fields False cs) (\<lambda>rest. Returns (Some name # rest))
      else if c \<in> set ''{!:['' then Raises ValueError
      else plain_field (name @ [c]) cs)"

text \<open>A schema-conformance engine that finds no violation.\<close>

definition quiet_externals :: "unit externals" where
  "quiet_externals = \<lparr>
     OAS31Validator = (\<lambda>resolver sc schema value. ([], Returns ())),
     Formatter_parse = plain_fields False \<rparr>"

text \<open>An engine that reports one violation for every value it is given.\<close>

definition noisy_externals :: "unit externals" where
  "noisy_externals = \<lparr>
     OAS31Validator = (\<lambda>resolver sc schema value. ([()], Returns ())),
     Formatter_parse = plain_fields False \<rparr>"

section \<open>Example resolvers\<close>

text \<open>A document in which \<open>#/A\<close> refers to \<open>#/B\<close> and \<open>#/B\<close> back to \<open>#/A\<close>.\<close>

definition ref_to :: "string \<Rightarrow> json" where
  "ref_to u = JObj [(''$ref'', JStr u)]"


definition chain_resolver :: resolver where
  "chain_resolver = \<lparr>
     resolve = (\<lambda>sc ref.
       if ref = JStr ''#/A'' then Inr ('''', ref_to ''#/B'')
       else if ref = JStr ''#/B'' then Inr ('''', JObj [(''type'', JStr ''object'')])
       else Inl (RefResolutionError ''unresolvable'')),
     in_scope = (\<lambda>item sc. sc) \<rparr>"

definition example_dereferencer :: dereferencer where
  "example_dereferencer = \<lparr>resolver_manager = chain_resolver, scopes_stack = ['''']\<rparr>"

text \<open>A document in which \<open>#/p\<close> is a path item with a \<open>get\<close> operation.\<close>

definition path_item_resolver :: resolver where
  "path_item_resolver = \<lparr>
     resolve = (\<lambda>sc ref.
       if ref = JStr ''#/p'' then Inr ('''', JObj [(''get'', JObj [])])
       else Inl (RefResolutionError ''unresolvable'')),
     in_scope = (\<lambda>item sc. sc) \<rparr>"

definition path_item_dereferencer :: dereferencer where
  "path_item_dereferencer = \<lparr>resolver_manager = path_item_resolver, scopes_stack = ['''']\<rparr>"

text \<open>A \<open>SpecValidator\<close> whose whole-document schema check finds no violation.\<close>

definition quiet_validator :: "unit SpecValidator" where
  "quiet_validator = \<lparr>
     validator_factory = (\<lambda>resolver spec. ([], Returns ())),
     RefResolver = (\<lambda>base_uri referrer. chain_resolver),
     library = quiet_externals \<rparr>"


section \<open>Properties of the dereferencer\<close>

declare dereference_within.simps [simp del]

lemma dereference_not_ref:
  assumes "dereference R sc x = Some r"
  shows "\<forall>y. r = Inr y \<longrightarrow> \<not> is_ref y"
proof (rule dereference.raw_induct[where P = "\<lambda>R sc x r. \<forall>y. r = Inr y \<longrightarrow> \<not> is_ref y", OF _ assms])
  fix f R sc item r
  assume IH: "\<And>R sc item r. f R sc item = Some r \<Longrightarrow> \<forall>y. r = Inr y \<longrightarrow> \<not> is_ref y"
    and body: "(if item = JNull \<or> \<not> is_ref item then Some (Inr item)
      else case py_getitem item ''$ref'' of Inl e \<Rightarrow> Some (Inl e)
           | Inr ref \<Rightarrow>
               case resolve R (in_scope R item sc) ref of
               Inl e \<Rightarrow> Some (Inl e)
               | Inr (url, target) \<Rightarrow>
                   if is_ref target
                   then f R (url # in_scope R item sc) target
                   else Some (Inr target)) = Some r"
  from body show "\<forall>y. r = Inr y \<longrightarrow> \<not> is_ref y"
    by (auto split: if_splits sum.splits prod.splits dest: IH)
qed

lemma dereference_non_ref: "\<not> is_ref x \<Longrightarrow> dereference R sc x = Some (Inr x)"
  by (simp add: dereference.simps)

lemma within_sound:
  "dereference_within n R sc item = Some r \<Longrightarrow> dereference R sc item = Some r"
proof (induction n arbitrary: sc item)
  case 0
  from 0 show ?case
    by (subst dereference.simps, subst (asm) dereference_within.simps)
       (auto split: if_splits sum.splits prod.splits)
next
  case (Suc n)
  from Suc.prems show ?case
    by (subst dereference.simps, subst (asm) dereference_within.simps)
       (auto split: if_splits sum.splits prod.splits dest: Suc.IH)
qed

lemma within_complete:
  assumes "dereference R sc item = Some r"
  shows "\<exists>n. dereference_within n R sc item = Some r"
proof (rule dereference.raw_induct[where P = "\<lambda>R sc x r. \<exists>n. dereference_within n R sc x = Some r", OF _ assms])
  fix f R sc item r
  assume IH: "\<And>R sc item r. f R sc item = Some r \<Longrightarrow> \<exists>n. dereference_within n R sc item = Some r"
    and body: "(if item = JNull \<or> \<not> is_ref item then Some (Inr item)
      else case py_getitem item ''$ref'' of Inl e \<Rightarrow> Some (Inl e)
           | Inr ref \<Rightarrow>
               case resolve R (in_scope R item sc) ref of
               Inl e \<Rightarrow> Some (Inl e)
               | Inr (url, target) \<Rightarrow>
                   if is_ref target
                   then f R (url # in_scope R item sc) target
                   else Some (Inr target)) = Some r"
  show "\<exists>n. dereference_within n R sc item = Some r"
  proof (cases "item = JNull \<or> \<not> is_ref item")
    case True
    with body show ?thesis by (auto simp: dereference_within.simps)
  next
    case False
    note nf = this
    show ?thesis
    proof (cases "py_getitem item ''$ref''")
      case (Inl e)
      with nf body show ?thesis by (auto simp: dereference_within.simps)
    next
      case (Inr ref)
      note gi = this
      show ?thesis
      proof (cases "resolve R (in_scope R item sc) ref")
        case (Inl e)
        with nf gi body show ?thesis by (auto simp: dereference_within.simps)
      next
        case (Inr p)
        obtain url target where p: "p = (url, target)" by (cases p)
        show ?thesis
        proof (cases "is_ref target")
          case True
          with nf gi Inr p body have "f R (url # in_scope R item sc) target = Some r"
            by simp
          from IH[OF this] obtain m where
            "dereference_within m R (url # in_scope R item sc) target = Some r" ..
          with nf gi Inr p True have "dereference_within (Suc m) R sc item = Some r"
            by (subst dereference_within.simps) simp
          then show ?thesis ..
        next
          case False
          with nf gi Inr p body show ?thesis by (auto simp: dereference_within.simps)
        qed
      qed
    qed
  qed
qed

lemma dereference_limited_agrees:
  "dereference_within m R sc item = Some r \<Longrightarrow> m < n \<Longrightarrow> dereference_limited n R sc item = r"
proof (induction m arbitrary: n sc item)
  case 0
  then obtain n' where n: "n = Suc n'" by (cases n) auto
  from 0(1) show ?case
    unfolding n
    by (subst (asm) dereference_within.simps)
       (auto split: if_splits sum.splits prod.splits)
next
  case (Suc m)
  then obtain n' where n: "n = Suc n'" and less: "m < n'" by (cases n) auto
  from Suc.prems(1) show ?case
    unfolding n
    by (subst (asm) dereference_within.simps)
       (auto split: if_splits sum.splits prod.splits dest: Suc.IH[OF _ less])
qed

text \<open>
  The source's recursion and the interpreter's agree below the limit: whatever the
  unbounded recursion returns, every large enough limit returns as well.
\<close>

lemma dereference_limited_eventually:
  assumes "dereference R sc item = Some r"
  shows "\<exists>n0. \<forall>n>n0. dereference_limited n R sc item = r"
proof -
  from within_complete[OF assms] obtain m where "dereference_within m R sc item = Some r" ..
  then have "\<forall>n>m. dereference_limited n R sc item = r"
    by (auto intro: dereference_limited_agrees)
  then show ?thesis ..
qed











text \<open>
  C10: whenever \<open>dereference\<close> returns a node, the node is not a reference node, and
  dereferencing it again returns it unchanged (idempotence).
\<close>

theorem dereference_idempotent:
  assumes "dereference R sc x = Some (Inr y)"
  shows "\<not> is_ref y \<and> dereference R sc y = Some (Inr y)"
proof -
  from dereference_not_ref[OF assms] have "\<not> is_ref y" by simp
  then show ?thesis by (simp add: dereference_non_ref)
qed

theorem dereference_idempotent_witness:
  "dereference chain_resolver [] (ref_to ''#/A'') = Some (Inr (JObj [(''type'', JStr ''object'')]))
   \<and> \<not> is_ref (JObj [(''type'', JStr ''object'')])
   \<and> dereference chain_resolver [] (JObj [(''type'', JStr ''object'')])
       = Some (Inr (JObj [(''type'', JStr ''object'')]))"
proof -
  have h: "dereference chain_resolver [] (ref_to ''#/A'')
             = Some (Inr (JObj [(''type'', JStr ''object'')]))"
    by (rule within_sound[of "Suc 0"])
       (simp add: dereference_within.simps chain_resolver_def ref_to_def has_key_def)
  show ?thesis using h dereference_idempotent[OF h] by simp
qed

section \<open>Sequencing lemmas\<close>

lemma g_bind_Returns [simp]: "g_bind (es, Returns a) f = (es @ fst (f a), snd (f a))"
  by (simp add: g_bind_def)

lemma g_bind_Raises [simp]: "g_bind (es, Raises x) f = (es, Raises x)"
  by (simp add: g_bind_def)

lemma g_bind_Diverges [simp]: "g_bind (es, Diverges) f = (es, Diverges)"
  by (simp add: g_bind_def)

lemma g_bind_OutOfFuel [simp]: "g_bind (es, OutOfFuel) f = (es, OutOfFuel)"
  by (simp add: g_bind_def)

lemma g_bind_ret [simp]: "g_bind (g_ret a) f = f a"
  by (simp add: g_ret_def)

lemma g_bind_lift [simp]:
  "g_bind (g_lift (Returns a)) f = f a"
  "g_bind (g_lift (Raises x)) f = ([], Raises x)"
  "g_bind (g_lift Diverges) f = ([], Diverges)"
  "g_bind (g_lift OutOfFuel) f = ([], OutOfFuel)"
  by (simp_all add: g_lift_def)

lemma fst_g_bind: "fst (g_bind m f) = fst m @ fst (continue_with (snd m) f)"
  by (simp add: g_bind_def)

lemma snd_g_bind: "snd (g_bind m f) = snd (continue_with (snd m) f)"
  by (simp add: g_bind_def)

lemma g_bind_returning:
  "snd m = Returns a \<Longrightarrow> g_bind m f = (fst m @ fst (f a), snd (f a))"
  by (simp add: g_bind_def)

lemma continue_with_cases:
  "(\<exists>a. r = Returns a \<and> continue_with r f = f a) \<or>
   (fst (continue_with r f) = [] \<and> (\<forall>a. r \<noteq> Returns a))"
  by (cases r) simp_all

lemma fst_wraps_errors [simp]: "fst (wraps_errors g) = map wrap_error (fst g)"
  by (simp add: wraps_errors_def)

lemma snd_wraps_errors [simp]: "snd (wraps_errors g) = snd g"
  by (simp add: wraps_errors_def)

lemma wrap_error_wrapped: "is_wrapped e \<Longrightarrow> wrap_error e = e"
  by (cases e) simp_all

lemma map_wrap_error_wrapped: "list_all is_wrapped es \<Longrightarrow> map wrap_error es = es"
  by (induction es) (simp_all add: wrap_error_wrapped)

lemma is_wrapped_wrap_error [simp]: "is_wrapped (wrap_error e)"
  by (cases e) simp_all

lemma wraps_errors_wrapped: "list_all is_wrapped (fst g) \<Longrightarrow> wraps_errors g = g"
  by (simp add: wraps_errors_def map_wrap_error_wrapped)

lemma wrapped_wraps_errors [simp]: "list_all is_wrapped (fst (wraps_errors g))"
  by (simp add: list_all_iff)

lemma kind_wrap_error [simp]:
  "is_ExtraParametersError (wrap_error e) = is_ExtraParametersError e"
  "is_ParameterDuplicateError (wrap_error e) = is_ParameterDuplicateError e"
  "is_UnresolvableParameterError (wrap_error e) = is_UnresolvableParameterError e"
  "is_DuplicateOperationIDError (wrap_error e) = is_DuplicateOperationIDError e"
  by (cases e; simp)+

lemma filter_kind_wraps:
  assumes "\<And>e. P (wrap_error e) = P e" and "\<And>e. P e \<Longrightarrow> is_wrapped e"
  shows "filter P (map wrap_error es) = filter P es"
proof (induction es)
  case Nil
  show ?case by simp
next
  case (Cons e es)
  show ?case
  proof (cases "P e")
    case True
    then have "wrap_error e = e" using assms(2) by (simp add: wrap_error_wrapped)
    with True Cons show ?thesis by simp
  next
    case False
    with Cons assms(1) show ?thesis by simp
  qed
qed

lemma kind_is_wrapped:
  "is_ExtraParametersError e \<Longrightarrow> is_wrapped e"
  "is_ParameterDuplicateError e \<Longrightarrow> is_wrapped e"
  "is_UnresolvableParameterError e \<Longrightarrow> is_wrapped e"
  "is_DuplicateOperationIDError e \<Longrightarrow> is_wrapped e"
  by (cases e; simp)+

lemma filter_extra_wraps [simp]:
  "filter is_ExtraParametersError (map wrap_error es) = filter is_ExtraParametersError es"
  by (rule filter_kind_wraps) (simp_all add: kind_is_wrapped)

section \<open>Dereferencing\<close>

lemma deref_non_ref: "\<not> is_ref v \<Longrightarrow> deref D v = Returns v"
  by (simp add: deref_def dereference_non_ref)

lemma deref_Returns_not_ref: "deref D x = Returns y \<Longrightarrow> \<not> is_ref y"
  using dereference_not_ref[of "resolver_manager D" "scopes_stack D" x]
  by (auto simp: deref_def split: option.splits sum.splits)

section \<open>Schema validator\<close>

lemma SchemaValidator_Suc:
  "SchemaValidator_iter_errors X D (Suc n) schema rp =
     wraps_errors
       (g_bind (g_lift (deref D schema)) (\<lambda>schema_deref.
          case schema_deref of
            JObj kvs \<Rightarrow>
              g_bind (iter_allOf_errors X D n kvs)
                (\<lambda>_. g_bind (iter_required_errors kvs rp)
                   (\<lambda>_. iter_default_errors X D kvs))
          | _ \<Rightarrow> g_ret ()))"
proof -
  have "(\<lambda>schema_deref. case schema_deref of
            JObj kvs \<Rightarrow>
              g_bind
                (if has_key kvs ''allOf'' then
                   g_bind (g_lift (o_bind (of_sum (py_getitem schema_deref ''allOf'')) py_iter))
                     (\<lambda>members. for_each members
                        (\<lambda>inner_schema. SchemaValidator_iter_errors X D n inner_schema False))
                 else g_ret ())
                (\<lambda>_. g_bind (iter_required_errors kvs rp)
                   (\<lambda>_. iter_default_errors X D kvs))
          | _ \<Rightarrow> g_ret ())
      = (\<lambda>schema_deref.
          case schema_deref of
            JObj kvs \<Rightarrow>
              g_bind (iter_allOf_errors X D n kvs)
                (\<lambda>_. g_bind (iter_required_errors kvs rp)
                   (\<lambda>_. iter_default_errors X D kvs))
          | _ \<Rightarrow> (g_ret () :: ('a error, unit) gen))"
    by (rule ext) (simp add: iter_allOf_errors_def split: json.splits)
  then show ?thesis by simp
qed

lemma SchemaValidator_on_object:
  assumes "deref D schema = Returns (JObj kvs)"
  shows "SchemaValidator_iter_errors X D (Suc n) schema rp =
     wraps_errors
       (g_bind (iter_allOf_errors X D n kvs)
          (\<lambda>_. g_bind (iter_required_errors kvs rp) (\<lambda>_. iter_default_errors X D kvs)))"
  by (simp add: SchemaValidator_Suc assms del: SchemaValidator_iter_errors.simps)

lemma filter_g_bind:
  "filter P (fst (g_bind m f)) = filter P (fst m) @ filter P (fst (continue_with (snd m) f))"
  by (simp add: fst_g_bind)

lemma continue_with_none:
  assumes "\<And>a. filter P (fst (f a)) = []"
  shows "filter P (fst (continue_with r f)) = []"
  using assms by (cases r) simp_all

lemma g_bind_none:
  assumes "filter P (fst m) = []" and "\<And>a. filter P (fst (f a)) = []"
  shows "filter P (fst (g_bind m f)) = []"
  using assms by (simp add: filter_g_bind continue_with_none)

lemma for_each_none:
  assumes "\<And>x. x \<in> set xs \<Longrightarrow> filter P (fst (body x)) = []"
  shows "filter P (fst (for_each xs body)) = []"
  using assms
proof (induction xs)
  case Nil
  show ?case by (simp add: g_ret_def)
next
  case (Cons x xs)
  then show ?case by (simp add: g_bind_none)
qed

lemma ValueValidator_kinds:
  "list_all (\<lambda>e. \<exists>v. e = OpenAPIValidationError v) (fst (ValueValidator_iter_errors X D schema value))"
  by (simp add: ValueValidator_iter_errors_def Let_def list_all_iff)

lemma ValueValidator_no_extra [simp]:
  "filter is_ExtraParametersError (fst (ValueValidator_iter_errors X D schema value)) = []"
  using ValueValidator_kinds[of X D schema "value"]
  by (auto simp: filter_empty_conv list_all_iff)

lemma fst_g_lift [simp]: "fst (g_lift r) = []"
  by (simp add: g_lift_def)

lemma snd_g_lift [simp]: "snd (g_lift r) = r"
  by (simp add: g_lift_def)

lemma iter_default_no_extra [simp]:
  "filter is_ExtraParametersError (fst (iter_default_errors X D kvs)) = []"
  by (auto simp: iter_default_errors_def Let_def g_ret_def intro!: g_bind_none)

lemma iter_required_False_none [simp]:
  "filter P (fst (iter_required_errors kvs False)) = []"
  by (auto simp: iter_required_errors_def Let_def g_ret_def g_lift_def intro!: g_bind_none)

lemma SchemaValidator_False_no_extra:
  "filter is_ExtraParametersError (fst (SchemaValidator_iter_errors X D n schema False)) = []"
proof (induction n arbitrary: schema)
  case 0
  show ?case by simp
next
  case (Suc n)
  have allOf: "filter is_ExtraParametersError (fst (iter_allOf_errors X D n kvs)) = []" for kvs
    unfolding iter_allOf_errors_def
    by (auto simp: g_ret_def g_lift_def Suc.IH intro!: g_bind_none for_each_none)
  show ?case
    unfolding SchemaValidator_Suc
    by (auto simp: g_ret_def g_lift_def allOf split: json.splits intro!: g_bind_none)
qed

lemma iter_allOf_no_extra [simp]:
  "filter is_ExtraParametersError (fst (iter_allOf_errors X D n kvs)) = []"
  unfolding iter_allOf_errors_def
  by (auto simp: g_ret_def g_lift_def SchemaValidator_False_no_extra intro!: g_bind_none for_each_none)

lemma list_all_wrapped_g_bind:
  assumes "list_all is_wrapped (fst m)" and "\<And>a. list_all is_wrapped (fst (f a))"
  shows "list_all is_wrapped (fst (g_bind m f))"
proof (cases "snd m")
  case (Returns a)
  with assms show ?thesis by (simp add: fst_g_bind)
qed (use assms in \<open>simp_all add: fst_g_bind\<close>)

lemma for_each_wrapped:
  assumes "\<And>x. x \<in> set xs \<Longrightarrow> list_all is_wrapped (fst (body x))"
  shows "list_all is_wrapped (fst (for_each xs body))"
  using assms
proof (induction xs)
  case Nil
  show ?case by (simp add: g_ret_def)
next
  case (Cons x xs)
  then show ?case by (simp add: list_all_wrapped_g_bind)
qed

declare SchemaValidator_iter_errors.simps(2) [simp del]

lemma SchemaValidator_wrapped [simp]:
  "list_all is_wrapped (fst (SchemaValidator_iter_errors X D n schema rp))"
  by (cases n) (simp_all add: list_all_iff SchemaValidator_Suc)

lemma iter_allOf_wrapped [simp]:
  "list_all is_wrapped (fst (iter_allOf_errors X D n kvs))"
  unfolding iter_allOf_errors_def
  by (auto simp: g_ret_def intro!: list_all_wrapped_g_bind for_each_wrapped)

lemma iter_required_wrapped [simp]:
  "list_all is_wrapped (fst (iter_required_errors kvs rp))"
  unfolding iter_required_errors_def Let_def
  by (auto simp: g_ret_def g_yield_def intro!: list_all_wrapped_g_bind)

lemma ValueValidator_wrapped [simp]:
  "list_all is_wrapped (fst (ValueValidator_iter_errors X D schema value))"
  by (simp add: ValueValidator_iter_errors_def Let_def list_all_iff)

lemma iter_default_wrapped [simp]:
  "list_all is_wrapped (fst (iter_default_errors X D kvs))"
  unfolding iter_default_errors_def Let_def
  by (auto simp: g_ret_def intro!: list_all_wrapped_g_bind)

lemma SchemaValidator_on_object_plain:
  assumes "deref D schema = Returns (JObj kvs)"
  shows "SchemaValidator_iter_errors X D (Suc n) schema rp =
       g_bind (iter_allOf_errors X D n kvs)
          (\<lambda>_. g_bind (iter_required_errors kvs rp) (\<lambda>_. iter_default_errors X D kvs))"
  unfolding SchemaValidator_on_object[OF assms]
  by (rule wraps_errors_wrapped) (intro list_all_wrapped_g_bind; simp)

lemma iter_default_declared:
  assumes "map_of kvs ''default'' = Some dflt"
  shows "iter_default_errors X D kvs =
     (if dflt = JNull \<and> dict_get kvs ''nullable'' (JBool False) = JBool True
      then ([], Returns ())
      else ValueValidator_iter_errors X D (JObj kvs) dflt)"
proof -
  from assms have "has_key kvs ''default''"
    by (metis has_key_def map_of_eq_None_iff option.distinct(1) set_map)
  with assms show ?thesis
    by (simp add: iter_default_errors_def Let_def g_ret_def)
qed



lemma py_eq_JStr [simp]: "py_eq (JStr s) y \<longleftrightarrow> y = JStr s"
  by (cases y) auto

lemma py_eq_JStr2 [simp]: "py_eq y (JStr s) \<longleftrightarrow> y = JStr s"
  by (cases y) auto

lemma py_mem_JStr [simp]: "py_mem (JStr s) xs \<longleftrightarrow> JStr s \<in> set xs"
  by (auto simp: py_mem_def list_ex_iff)

lemma py_dedupe_strings:
  "set (py_dedupe acc (map JStr ss)) = set acc \<union> JStr ` set ss"
  by (induction ss arbitrary: acc) auto

lemma py_dedupe_distinct:
  "distinct acc \<Longrightarrow> distinct (py_dedupe acc (map JStr ss))"
  by (induction ss arbitrary: acc) auto

lemma py_set_strings:
  "py_set (map JStr ss) = Returns (py_dedupe [] (map JStr ss))"
  by (simp add: py_set_def list_all_iff)

lemma set_extra_of: "set (extra_of required properties) = JStr ` (set required - fst ` set properties)"
  by (force simp: extra_of_def py_dedupe_strings image_iff)

lemma distinct_extra_of: "distinct (extra_of required properties)"
  by (simp add: extra_of_def py_dedupe_distinct)

lemma iter_required_strings:
  assumes "dict_get kvs ''required'' (JArr []) = JArr (map JStr required)"
      and "dict_get kvs ''properties'' (JObj []) = JObj properties"
  shows "iter_required_errors kvs rp =
     (if rp \<and> extra_of required properties \<noteq> []
      then ([ExtraParametersError (extra_of required properties)], Returns ())
      else ([], Returns ()))"
  using assms
  by (simp add: iter_required_errors_def Let_def py_set_strings extra_of_def g_yield_def g_ret_def)

lemma SchemaValidator_required_example:
  "SchemaValidator_iter_errors X D (Suc n)
     (JObj [(''required'', JArr [JStr ''a'', JStr ''b'']), (''properties'', JObj [(''a'', JObj [])])])
     True
   = ([ExtraParametersError [JStr ''b'']], Returns ())"
  by (simp add: SchemaValidator_Suc deref_non_ref has_key_def iter_allOf_errors_def
      iter_required_errors_def iter_default_errors_def dict_get_def py_set_def py_mem_def
      g_ret_def g_yield_def wraps_errors_def)

lemma SchemaValidator_allOf_example:
  "SchemaValidator_iter_errors X D (Suc (Suc n))
     (JObj [(''allOf'', JArr [JObj [(''required'', JArr [JStr ''a''])],
                              JObj [(''properties'', JObj [(''a'', JObj [])])]])]) True
   = ([], Returns ())"
  by (simp add: SchemaValidator_Suc deref_non_ref has_key_def iter_allOf_errors_def
      iter_required_errors_def iter_default_errors_def dict_get_def py_set_def py_mem_def
      g_ret_def g_yield_def wraps_errors_def)

lemma iter_allOf_members:
  assumes "map_of kvs ''allOf'' = Some (JArr members)"
  shows "iter_allOf_errors X D n kvs =
     for_each members (\<lambda>inner_schema. SchemaValidator_iter_errors X D n inner_schema False)"
proof -
  from assms have "has_key kvs ''allOf''"
    by (metis has_key_def map_of_eq_None_iff option.distinct(1) set_map)
  with assms show ?thesis by (simp add: iter_allOf_errors_def)
qed

lemma for_each_returning_prefix:
  assumes "\<forall>p\<in>set pre. snd (f p) = Returns ()"
  shows "for_each (pre @ xs) f
           = (concat (map (\<lambda>p. fst (f p)) pre) @ fst (for_each xs f), snd (for_each xs f))"
  using assms
proof (induction pre)
  case Nil
  show ?case by simp
next
  case (Cons p pre)
  then have "snd (f p) = Returns ()" by simp
  then have "g_bind (f p) (\<lambda>_. for_each (pre @ xs) f)
               = (fst (f p) @ fst (for_each (pre @ xs) f), snd (for_each (pre @ xs) f))"
    by (rule g_bind_returning)
  with Cons show ?case by simp
qed

lemma for_each_all_returning:
  assumes "\<forall>p\<in>set xs. snd (f p) = Returns ()"
  shows "for_each xs f = (concat (map (\<lambda>p. fst (f p)) xs), Returns ())"
  using for_each_returning_prefix[OF assms, of "[]"] by (simp add: g_ret_def)

lemma g_bind_unit_explicit:
  "g_bind m (\<lambda>_. k) =
     (fst m @ (case snd m of Returns u \<Rightarrow> fst k | _ \<Rightarrow> []),
      (case snd m of Returns u \<Rightarrow> snd k | out \<Rightarrow> out))"
  by (cases "snd m") (simp_all add: g_bind_def)

text \<open>
  C5: on a schema object whose \<open>allOf\<close> is a list, \<open>SchemaValidator.iter_errors\<close> runs
  itself on the members, in order, with \<open>require_properties\<close> false: the errors of the run
  begin with the errors of these runs, member after member, for as long as the runs return;
  when all of them return, the run goes on with the schema's own \<open>required\<close>/\<open>properties\<close>
  check and default check. A run with \<open>require_properties\<close> false yields no
  \<open>ExtraParametersError\<close>, at any depth, and on the schema
  \<open>{"allOf": [{"required": ["a"]}, {"properties": {"a": {}}}]}\<close> the run yields no error at all.
\<close>

theorem allOf_members_without_require_properties:
  fixes X :: "'v externals"
  shows
  "(deref D schema = Returns (JObj kvs)
    \<and> map_of kvs ''allOf'' = Some (JArr (pre @ m # post))
    \<and> (\<forall>p\<in>set pre. snd (SchemaValidator_iter_errors X D n p False) = Returns ())
    \<longrightarrow> (\<exists>rest. fst (SchemaValidator_iter_errors X D (Suc n) schema rp)
            = concat (map (\<lambda>p. fst (SchemaValidator_iter_errors X D n p False)) pre)
              @ fst (SchemaValidator_iter_errors X D n m False) @ rest))
   \<and> (deref D schema = Returns (JObj kvs)
    \<and> map_of kvs ''allOf'' = Some (JArr members)
    \<and> (\<forall>p\<in>set members. snd (SchemaValidator_iter_errors X D n p False) = Returns ())
    \<longrightarrow> fst (SchemaValidator_iter_errors X D (Suc n) schema rp)
          = concat (map (\<lambda>p. fst (SchemaValidator_iter_errors X D n p False)) members)
            @ fst (iter_required_errors kvs rp)
            @ (case snd (iter_required_errors kvs rp :: ('v error, unit) gen) of
                 Returns u \<Rightarrow> fst (iter_default_errors X D kvs) | _ \<Rightarrow> [])
        \<and> snd (SchemaValidator_iter_errors X D (Suc n) schema rp)
          = (case snd (iter_required_errors kvs rp :: ('v error, unit) gen) of
               Returns u \<Rightarrow> snd (iter_default_errors X D kvs) | out \<Rightarrow> out))
   \<and> filter is_ExtraParametersError (fst (SchemaValidator_iter_errors X D n inner False)) = []
   \<and> SchemaValidator_iter_errors X D (Suc (Suc n))
         (JObj [(''allOf'', JArr [JObj [(''required'', JArr [JStr ''a''])],
                                  JObj [(''properties'', JObj [(''a'', JObj [])])]])]) True
       = ([], Returns ())"
proof (intro conjI impI)
  assume h: "deref D schema = Returns (JObj kvs)
    \<and> map_of kvs ''allOf'' = Some (JArr (pre @ m # post))
    \<and> (\<forall>p\<in>set pre. snd (SchemaValidator_iter_errors X D n p False) = Returns ())"
  then have d: "deref D schema = Returns (JObj kvs)"
    and a: "map_of kvs ''allOf'' = Some (JArr (pre @ m # post))"
    and r: "\<forall>p\<in>set pre. snd (SchemaValidator_iter_errors X D n p False) = Returns ()"
    by simp_all
  let ?f = "\<lambda>p. SchemaValidator_iter_errors X D n p False"
  have "fst (iter_allOf_errors X D n kvs)
          = concat (map (\<lambda>p. fst (?f p)) pre) @ fst (?f m)
            @ fst (continue_with (snd (?f m)) (\<lambda>_. for_each post ?f))"
    unfolding iter_allOf_members[OF a] for_each_returning_prefix[OF r]
    by (simp add: fst_g_bind)
  then show "\<exists>rest. fst (SchemaValidator_iter_errors X D (Suc n) schema rp)
            = concat (map (\<lambda>p. fst (SchemaValidator_iter_errors X D n p False)) pre)
              @ fst (SchemaValidator_iter_errors X D n m False) @ rest"
    unfolding SchemaValidator_on_object_plain[OF d]
    by (simp add: fst_g_bind)
next
  assume h: "deref D schema = Returns (JObj kvs)
    \<and> map_of kvs ''allOf'' = Some (JArr members)
    \<and> (\<forall>p\<in>set members. snd (SchemaValidator_iter_errors X D n p False) = Returns ())"
  then have d: "deref D schema = Returns (JObj kvs)"
    and a: "map_of kvs ''allOf'' = Some (JArr members)"
    and r: "\<forall>p\<in>set members. snd (SchemaValidator_iter_errors X D n p False) = Returns ()"
    by simp_all
  have all: "iter_allOf_errors X D n kvs
          = (concat (map (\<lambda>p. fst (SchemaValidator_iter_errors X D n p False)) members),
             Returns ())"
    unfolding iter_allOf_members[OF a] by (rule for_each_all_returning[OF r])
  show "fst (SchemaValidator_iter_errors X D (Suc n) schema rp)
          = concat (map (\<lambda>p. fst (SchemaValidator_iter_errors X D n p False)) members)
            @ fst (iter_required_errors kvs rp)
            @ (case snd (iter_required_errors kvs rp :: ('v error, unit) gen) of
                 Returns u \<Rightarrow> fst (iter_default_errors X D kvs) | _ \<Rightarrow> [])"
    unfolding SchemaValidator_on_object_plain[OF d] all
    by (simp add: g_bind_unit_explicit)
  show "snd (SchemaValidator_iter_errors X D (Suc n) schema rp)
          = (case snd (iter_required_errors kvs rp :: ('v error, unit) gen) of
               Returns u \<Rightarrow> snd (iter_default_errors X D kvs) | out \<Rightarrow> out)"
    unfolding SchemaValidator_on_object_plain[OF d] all
    by (simp add: g_bind_unit_explicit)
next
  show "filter is_ExtraParametersError (fst (SchemaValidator_iter_errors X D n inner False)) = []"
    by (rule SchemaValidator_False_no_extra)
next
  show "SchemaValidator_iter_errors X D (Suc (Suc n))
         (JObj [(''allOf'', JArr [JObj [(''required'', JArr [JStr ''a''])],
                                  JObj [(''properties'', JObj [(''a'', JObj [])])]])]) True
       = ([], Returns ())"
    by (rule SchemaValidator_allOf_example)
qed

lemma noisy_member_runs:
  "SchemaValidator_iter_errors noisy_externals example_dereferencer (Suc 0)
      (JObj [(''default'', JNum 1)]) False = ([OpenAPIValidationError ()], Returns ())"
  "SchemaValidator_iter_errors noisy_externals example_dereferencer (Suc 0)
      (JObj [(''required'', JArr [JStr ''a'']), (''default'', JNum 2)]) False
     = ([OpenAPIValidationError ()], Returns ())"
  by (simp_all add: SchemaValidator_Suc deref_non_ref has_key_def iter_allOf_errors_def
      iter_required_errors_def iter_default_errors_def ValueValidator_iter_errors_def
      noisy_externals_def dict_get_def py_set_def py_mem_def
      g_ret_def g_yield_def wraps_errors_def)

theorem allOf_members_without_require_properties_witness:
  "deref example_dereferencer
     (JObj [(''allOf'', JArr [JObj [(''default'', JNum 1)],
                              JObj [(''required'', JArr [JStr ''a'']), (''default'', JNum 2)]])])
     = Returns
        (JObj [(''allOf'', JArr [JObj [(''default'', JNum 1)],
                              JObj [(''required'', JArr [JStr ''a'']), (''default'', JNum 2)]])])
   \<and> SchemaValidator_iter_errors noisy_externals example_dereferencer (Suc 0)
       (JObj [(''default'', JNum 1)]) False
     = ([OpenAPIValidationError ()], Returns ())
   \<and> SchemaValidator_iter_errors noisy_externals example_dereferencer (Suc 0)
       (JObj [(''required'', JArr [JStr ''a'']), (''default'', JNum 2)]) False
     = ([OpenAPIValidationError ()], Returns ())
   \<and> SchemaValidator_iter_errors noisy_externals example_dereferencer (Suc (Suc 0))
       (JObj [(''allOf'', JArr [JObj [(''default'', JNum 1)],
                                JObj [(''required'', JArr [JStr ''a'']), (''default'', JNum 2)]])])
       True
     = ([OpenAPIValidationError (), OpenAPIValidationError ()], Returns ())"
proof -
  let ?m1 = "JObj [(''default'', JNum 1)]"
  let ?m2 = "JObj [(''required'', JArr [JStr ''a'']), (''default'', JNum 2)]"
  let ?kvs = "[(''allOf'', JArr [?m1, ?m2])]"
  have d: "deref example_dereferencer (JObj ?kvs) = Returns (JObj ?kvs)"
    by (simp add: deref_non_ref has_key_def)
  have a: "map_of ?kvs ''allOf'' = Some (JArr [?m1, ?m2])"
    by simp
  have r: "\<forall>p\<in>set [?m1, ?m2].
        snd (SchemaValidator_iter_errors noisy_externals example_dereferencer (Suc 0) p False)
          = Returns ()"
    by (simp add: noisy_member_runs)
  have q: "(iter_required_errors ?kvs True :: (unit error, unit) gen) = ([], Returns ())"
    by (simp add: iter_required_errors_def dict_get_def py_set_def g_ret_def)
  have f: "iter_default_errors noisy_externals example_dereferencer ?kvs = ([], Returns ())"
    by (simp add: iter_default_errors_def has_key_def g_ret_def)
  from allOf_members_without_require_properties
    [where D = example_dereferencer and schema = "JObj ?kvs" and kvs = ?kvs
       and members = "[?m1, ?m2]" and X = noisy_externals and n = "Suc 0" and rp = True,
     THEN conjunct2, THEN conjunct1]
    d a r
  have "fst (SchemaValidator_iter_errors noisy_externals example_dereferencer (Suc (Suc 0))
               (JObj ?kvs) True)
          = [OpenAPIValidationError (), OpenAPIValidationError ()]
      \<and> snd (SchemaValidator_iter_errors noisy_externals example_dereferencer (Suc (Suc 0))
               (JObj ?kvs) True) = Returns ()"
    by (simp add: noisy_member_runs q f)
  then have "SchemaValidator_iter_errors noisy_externals example_dereferencer (Suc (Suc 0))
               (JObj ?kvs) True
             = ([OpenAPIValidationError (), OpenAPIValidationError ()], Returns ())"
    by (simp add: prod_eq_iff)
  with d noisy_member_runs show ?thesis by simp
qed


text \<open>
  C6: on a dereferenced schema object whose \<open>allOf\<close> members (if any) are validated to the
  end, whose \<open>required\<close> is a list of strings and whose \<open>properties\<close> is an object, the run
  yields exactly one \<open>ExtraParametersError\<close> when \<open>require_properties\<close> is true and some
  required name has no entry in \<open>properties\<close>, listing exactly those names (each once), and
  none otherwise; on \<open>{"required": ["a","b"], "properties": {"a": {}}}\<close> the run yields
  exactly the one error listing \<open>"b"\<close>.
\<close>

theorem required_without_property_reported_once:
  fixes X :: "'v externals"
  shows
  "(deref D schema = Returns (JObj kvs)
    \<and> snd (iter_allOf_errors X D n kvs) = Returns ()
    \<and> dict_get kvs ''required'' (JArr []) = JArr (map JStr required)
    \<and> dict_get kvs ''properties'' (JObj []) = JObj properties
    \<longrightarrow> (\<exists>extra. set extra = JStr ` (set required - fst ` set properties) \<and> distinct extra \<and>
           filter is_ExtraParametersError
             (fst (SchemaValidator_iter_errors X D (Suc n) schema rp))
           = (if rp \<and> set required - fst ` set properties \<noteq> {}
              then [ExtraParametersError extra] else [])))
   \<and> SchemaValidator_iter_errors X D (Suc n)
        (JObj [(''required'', JArr [JStr ''a'', JStr ''b'']),
               (''properties'', JObj [(''a'', JObj [])])]) True
      = ([ExtraParametersError [JStr ''b'']], Returns ())"
proof (intro conjI impI)
  assume h: "deref D schema = Returns (JObj kvs)
    \<and> snd (iter_allOf_errors X D n kvs) = Returns ()
    \<and> dict_get kvs ''required'' (JArr []) = JArr (map JStr required)
    \<and> dict_get kvs ''properties'' (JObj []) = JObj properties"
  let ?extra = "extra_of required properties"
  have ne: "?extra \<noteq> [] \<longleftrightarrow> set required - fst ` set properties \<noteq> {}"
    using set_extra_of[of required properties] by (metis image_is_empty set_empty)
  from h have a1: "deref D schema = Returns (JObj kvs)"
    and a2: "snd (iter_allOf_errors X D n kvs) = Returns ()"
    and a3: "dict_get kvs ''required'' (JArr []) = JArr (map JStr required)"
    and a4: "dict_get kvs ''properties'' (JObj []) = JObj properties"
    by simp_all
  have "filter is_ExtraParametersError (fst (SchemaValidator_iter_errors X D (Suc n) schema rp))
       = (if rp \<and> ?extra \<noteq> [] then [ExtraParametersError ?extra] else [])"
    unfolding SchemaValidator_on_object_plain[OF a1]
    by (simp add: g_bind_returning[OF a2] iter_required_strings[OF a3 a4] fst_g_bind)
  with ne set_extra_of distinct_extra_of
  show "\<exists>extra. set extra = JStr ` (set required - fst ` set properties) \<and> distinct extra \<and>
           filter is_ExtraParametersError
             (fst (SchemaValidator_iter_errors X D (Suc n) schema rp))
           = (if rp \<and> set required - fst ` set properties \<noteq> {}
              then [ExtraParametersError extra] else [])"
    by metis
next
  show "SchemaValidator_iter_errors X D (Suc n)
        (JObj [(''required'', JArr [JStr ''a'', JStr ''b'']),
               (''properties'', JObj [(''a'', JObj [])])]) True
      = ([ExtraParametersError [JStr ''b'']], Returns ())"
    by (rule SchemaValidator_required_example)
qed

theorem required_without_property_reported_once_witness:
  "deref example_dereferencer
      (JObj [(''required'', JArr [JStr ''a'', JStr ''b'']), (''properties'', JObj [(''a'', JObj [])])])
     = Returns (JObj [(''required'', JArr [JStr ''a'', JStr ''b'']),
                      (''properties'', JObj [(''a'', JObj [])])])
   \<and> snd (iter_allOf_errors quiet_externals example_dereferencer 0
        [(''required'', JArr [JStr ''a'', JStr ''b'']), (''properties'', JObj [(''a'', JObj [])])])
     = Returns ()
   \<and> dict_get [(''required'', JArr [JStr ''a'', JStr ''b'']), (''properties'', JObj [(''a'', JObj [])])]
        ''required'' (JArr []) = JArr (map JStr [''a'', ''b''])
   \<and> dict_get [(''required'', JArr [JStr ''a'', JStr ''b'']), (''properties'', JObj [(''a'', JObj [])])]
        ''properties'' (JObj []) = JObj [(''a'', JObj [])]
   \<and> (\<exists>extra. set extra = {JStr ''b''} \<and>
         filter is_ExtraParametersError
           (fst (SchemaValidator_iter_errors quiet_externals example_dereferencer (Suc 0)
              (JObj [(''required'', JArr [JStr ''a'', JStr ''b'']),
                     (''properties'', JObj [(''a'', JObj [])])]) True))
         = [ExtraParametersError extra])"
proof -
  let ?kvs = "[(''required'', JArr [JStr ''a'', JStr ''b'']), (''properties'', JObj [(''a'', JObj [])])]"
  have d: "deref example_dereferencer (JObj ?kvs) = Returns (JObj ?kvs)"
    by (simp add: deref_non_ref has_key_def)
  have a: "snd (iter_allOf_errors quiet_externals example_dereferencer 0 ?kvs) = Returns ()"
    by (simp add: iter_allOf_errors_def has_key_def g_ret_def)
  have r: "dict_get ?kvs ''required'' (JArr []) = JArr (map JStr [''a'', ''b''])"
    by (simp add: dict_get_def)
  have p: "dict_get ?kvs ''properties'' (JObj []) = JObj [(''a'', JObj [])]"
    by (simp add: dict_get_def)
  have s: "JStr ` (set [''a'', ''b''] - fst ` set [(''a'', JObj [])]) = {JStr ''b''}"
    by auto
  have n: "set [''a'', ''b''] - fst ` set [(''a'', JObj [])] \<noteq> {}"
    by auto
  from required_without_property_reported_once
    [of example_dereferencer "JObj ?kvs" ?kvs quiet_externals 0 "[''a'', ''b'']"
        "[(''a'', JObj [])]" True]
    d a r p
  have "\<exists>extra. set extra = JStr ` (set [''a'', ''b''] - fst ` set [(''a'', JObj [])]) \<and>
         distinct extra \<and>
         filter is_ExtraParametersError
           (fst (SchemaValidator_iter_errors quiet_externals example_dereferencer (Suc 0)
              (JObj ?kvs) True))
         = (if True \<and> set [''a'', ''b''] - fst ` set [(''a'', JObj [])] \<noteq> {}
            then [ExtraParametersError extra] else [])"
    by blast
  with s n have "\<exists>extra. set extra = {JStr ''b''} \<and>
         filter is_ExtraParametersError
           (fst (SchemaValidator_iter_errors quiet_externals example_dereferencer (Suc 0)
              (JObj ?kvs) True))
         = [ExtraParametersError extra]"
    by (metis (full_types))
  with d a r p show ?thesis by blast
qed

text \<open>
  C8: on a dereferenced schema object that declares a default, once the \<open>allOf\<close> members
  and the \<open>required\<close>/\<open>properties\<close> check have run to their end, \<open>SchemaValidator.iter_errors\<close>
  runs the Value Validator on \<open>(schema, default)\<close> and its errors and its outcome are those
  of the rest of the run, except when the default is null and \<open>nullable\<close> is \<open>True\<close>: then
  the run ends with no value validation.
\<close>

theorem default_validated_unless_null_and_nullable:
  fixes X :: "'v externals"
  assumes "deref D schema = Returns (JObj kvs)"
    and "map_of kvs ''default'' = Some dflt"
    and "snd (iter_allOf_errors X D n kvs) = Returns ()"
    and "snd (iter_required_errors kvs rp :: ('v error, unit) gen) = Returns ()"
  shows "SchemaValidator_iter_errors X D (Suc n) schema rp =
     (if dflt = JNull \<and> dict_get kvs ''nullable'' (JBool False) = JBool True
      then (fst (iter_allOf_errors X D n kvs) @ fst (iter_required_errors kvs rp), Returns ())
      else (fst (iter_allOf_errors X D n kvs) @ fst (iter_required_errors kvs rp)
              @ fst (ValueValidator_iter_errors X D (JObj kvs) dflt),
            snd (ValueValidator_iter_errors X D (JObj kvs) dflt)))"
  unfolding SchemaValidator_on_object_plain[OF assms(1)]
  by (simp add: g_bind_returning[OF assms(3)] g_bind_returning[OF assms(4)]
      iter_default_declared[OF assms(2)])

theorem default_validated_unless_null_and_nullable_witness:
  "SchemaValidator_iter_errors noisy_externals example_dereferencer (Suc 0)
      (JObj [(''default'', JNull)]) True
     = ([OpenAPIValidationError ()], Returns ())
   \<and> SchemaValidator_iter_errors noisy_externals example_dereferencer (Suc 0)
      (JObj [(''default'', JNull), (''nullable'', JBool True)]) True
     = ([], Returns ())"
proof -
  let ?k1 = "[(''default'', JNull)]"
  let ?k2 = "[(''default'', JNull), (''nullable'', JBool True)]"
  have d1: "deref example_dereferencer (JObj ?k1) = Returns (JObj ?k1)"
    by (simp add: deref_non_ref has_key_def)
  have d2: "deref example_dereferencer (JObj ?k2) = Returns (JObj ?k2)"
    by (simp add: deref_non_ref has_key_def)
  have m1: "map_of ?k1 ''default'' = Some JNull" by simp
  have m2: "map_of ?k2 ''default'' = Some JNull" by simp
  have a1: "iter_allOf_errors noisy_externals example_dereferencer 0 ?k1 = ([], Returns ())"
    by (simp add: iter_allOf_errors_def has_key_def g_ret_def)
  have a2: "iter_allOf_errors noisy_externals example_dereferencer 0 ?k2 = ([], Returns ())"
    by (simp add: iter_allOf_errors_def has_key_def g_ret_def)
  have r1: "(iter_required_errors ?k1 True :: (unit error, unit) gen) = ([], Returns ())"
    by (simp add: iter_required_errors_def dict_get_def py_set_def g_ret_def)
  have r2: "(iter_required_errors ?k2 True :: (unit error, unit) gen) = ([], Returns ())"
    by (simp add: iter_required_errors_def dict_get_def py_set_def g_ret_def)
  have v: "ValueValidator_iter_errors noisy_externals example_dereferencer (JObj ?k1) JNull
            = ([OpenAPIValidationError ()], Returns ())"
    by (simp add: ValueValidator_iter_errors_def noisy_externals_def wraps_errors_def)
  have c1: "SchemaValidator_iter_errors noisy_externals example_dereferencer (Suc 0)
      (JObj ?k1) True = ([OpenAPIValidationError ()], Returns ())"
    using default_validated_unless_null_and_nullable
      [of example_dereferencer "JObj ?k1" ?k1 JNull noisy_externals 0 True, OF d1 m1]
    by (simp add: a1 r1 v dict_get_def)
  have c2: "SchemaValidator_iter_errors noisy_externals example_dereferencer (Suc 0)
      (JObj ?k2) True = ([], Returns ())"
    using default_validated_unless_null_and_nullable
      [of example_dereferencer "JObj ?k2" ?k2 JNull noisy_externals 0 True, OF d2 m2]
    by (simp add: a2 r2 dict_get_def)
  from c1 c2 show ?thesis by simp
qed

section \<open>Which kinds of error a validator can yield\<close>

lemma list_all_g_bind:
  assumes "list_all P (fst m)" and "\<And>a. list_all P (fst (f a))"
  shows "list_all P (fst (g_bind m f))"
proof (cases "snd m")
  case (Returns a)
  with assms show ?thesis by (simp add: fst_g_bind)
qed (use assms in \<open>simp_all add: fst_g_bind\<close>)

lemma list_all_for_each:
  assumes "\<And>x. x \<in> set xs \<Longrightarrow> list_all P (fst (body x))"
  shows "list_all P (fst (for_each xs body))"
  using assms
proof (induction xs)
  case Nil
  show ?case by (simp add: g_ret_def)
next
  case (Cons x xs)
  then show ?case by (simp add: list_all_g_bind)
qed

lemma ValueValidator_only:
  assumes "\<And>v. P (OpenAPIValidationError v)"
  shows "list_all P (fst (ValueValidator_iter_errors X D schema value))"
  using assms by (simp add: ValueValidator_iter_errors_def Let_def list_all_iff)

lemma iter_required_only:
  assumes "\<And>xs. P (ExtraParametersError xs)"
  shows "list_all P (fst (iter_required_errors kvs rp))"
  unfolding iter_required_errors_def Let_def
  using assms by (auto simp: g_ret_def g_yield_def intro!: list_all_g_bind)

lemma iter_default_only:
  assumes "\<And>v. P (OpenAPIValidationError v)"
  shows "list_all P (fst (iter_default_errors X D kvs))"
  unfolding iter_default_errors_def Let_def
  using assms by (auto simp: g_ret_def intro!: list_all_g_bind ValueValidator_only)

lemma SchemaValidator_only:
  assumes P1: "\<And>v. P (OpenAPIValidationError v)" and P2: "\<And>xs. P (ExtraParametersError xs)"
  shows "list_all P (fst (SchemaValidator_iter_errors X D n schema rp))"
proof (induction n arbitrary: schema rp)
  case 0
  show ?case by simp
next
  case (Suc n)
  show ?case
  proof (cases "deref D schema")
    case (Returns v)
    show ?thesis
    proof (cases v)
      case (JObj kvs)
      have "list_all P (fst (iter_allOf_errors X D n kvs))"
        unfolding iter_allOf_errors_def
        by (auto simp: g_ret_def Suc.IH intro!: list_all_g_bind list_all_for_each)
      then show ?thesis
        unfolding SchemaValidator_on_object_plain[OF Returns[unfolded JObj]]
        by (intro list_all_g_bind iter_required_only iter_default_only P1 P2)
    qed (simp_all add: SchemaValidator_Suc Returns g_ret_def)
  qed (simp_all add: SchemaValidator_Suc)
qed

lemma ParameterValidator_inner_only:
  assumes P1: "\<And>v. P (OpenAPIValidationError v)" and P2: "\<And>xs. P (ExtraParametersError xs)"
  shows "list_all P (fst
       (g_bind (g_lift (py_contains ''schema'' parameter)) (\<lambda>has_schema.
        g_bind
          (if has_schema then
             g_bind (g_lift (of_sum (py_getitem parameter ''schema''))) (\<lambda>schema.
             g_bind (g_lift (deref D schema)) (\<lambda>schema_deref.
               SchemaValidator_iter_errors X D n schema_deref True))
           else g_ret ())
          (\<lambda>_.
        g_bind (g_lift (py_contains ''default'' parameter)) (\<lambda>has_default.
          if has_default then
            g_bind (g_lift (of_sum (py_getitem parameter ''default''))) (\<lambda>dflt.
              if dflt \<noteq> JNull then ValueValidator_iter_errors X D parameter dflt
              else g_ret ())
          else g_ret ())))))"
  by (auto simp: g_ret_def intro!: list_all_g_bind SchemaValidator_only ValueValidator_only P1 P2)

lemma ParameterValidator_only:
  assumes P1: "\<And>v. P (OpenAPIValidationError v)" and P2: "\<And>xs. P (ExtraParametersError xs)"
  shows "list_all P (fst (ParameterValidator_iter_errors X D n parameter))"
proof -
  have w: "list_all is_wrapped (fst
       (g_bind (g_lift (py_contains ''schema'' parameter)) (\<lambda>has_schema.
        g_bind
          (if has_schema then
             g_bind (g_lift (of_sum (py_getitem parameter ''schema''))) (\<lambda>schema.
             g_bind (g_lift (deref D schema)) (\<lambda>schema_deref.
               SchemaValidator_iter_errors X D n schema_deref True))
           else g_ret ())
          (\<lambda>_.
        g_bind (g_lift (py_contains ''default'' parameter)) (\<lambda>has_default.
          if has_default then
            g_bind (g_lift (of_sum (py_getitem parameter ''default''))) (\<lambda>dflt.
              if dflt \<noteq> JNull then ValueValidator_iter_errors X D parameter dflt
              else g_ret ())
          else g_ret ())))))"
    by (rule ParameterValidator_inner_only) simp_all
  show ?thesis
    unfolding ParameterValidator_iter_errors_def wraps_errors_wrapped[OF w]
    by (rule ParameterValidator_inner_only[OF P1 P2])
qed

lemma filter_empty_list_all: "list_all (\<lambda>e. \<not> P e) es \<Longrightarrow> filter P es = []"
  by (simp add: filter_empty_conv list_all_iff)

lemma ParameterValidator_no_duplicate [simp]:
  "filter is_ParameterDuplicateError (fst (ParameterValidator_iter_errors X D n parameter)) = []"
  by (rule filter_empty_list_all, rule ParameterValidator_only) simp_all

section \<open>Stateful sequencing\<close>

lemma s_bind_lift_Returns [simp]:
  "s_bind (s_lift (g_lift (Returns a))) f s = f a s"
  by (simp add: s_bind_def s_lift_def g_lift_def Let_def)

lemma s_bind_lift_gen:
  "snd g = Returns a \<Longrightarrow>
   s_bind (s_lift g) f s = ((fst g @ fst (fst (f a s)), snd (fst (f a s))), snd (f a s))"
  by (simp add: s_bind_def s_lift_def Let_def)

lemma s_bind_step:
  "m s = ((es, Returns a), s') \<Longrightarrow>
   s_bind m f s = ((es @ fst (fst (f a s')), snd (fst (f a s'))), snd (f a s'))"
  by (simp add: s_bind_def Let_def)

lemma s_bind_stop:
  "m s = ((es, r), s') \<Longrightarrow> \<forall>a. r \<noteq> Returns a \<Longrightarrow>
   fst (fst (s_bind m f s)) = es \<and> snd (s_bind m f s) = s'
   \<and> (\<forall>a. snd (fst (s_bind m f s)) \<noteq> Returns a)"
  by (cases r) (simp_all add: s_bind_def Let_def)

section \<open>Parameters validator\<close>

lemma iter_parameter_in_list_step:
  assumes d: "deref D p = Returns pd"
    and r: "snd (ParameterValidator_iter_errors X D n pd) = Returns ()"
    and nm: "py_getitem pd ''name'' = Inr (JStr name)"
    and lc: "py_getitem pd ''in'' = Inr (JStr loc)"
  shows "iter_parameter_in_list X D n p seen =
     ((fst (ParameterValidator_iter_errors X D n pd)
         @ (if (JStr name, JStr loc) \<in> set seen then [ParameterDuplicateError (JStr name)] else []),
       Returns ()),
      (if (JStr name, JStr loc) \<in> set seen then seen else seen @ [(JStr name, JStr loc)]))"
proof -
  have km: "key_mem (JStr name, JStr loc) seen \<longleftrightarrow> (JStr name, JStr loc) \<in> set seen"
    by (force simp: key_mem_def list_ex_iff)
  show ?thesis
    unfolding iter_parameter_in_list_def
    by (simp add: d r nm lc km s_bind_def Let_def g_yield_def g_ret_def
        s_lift_def g_lift_def)
qed

lemma filter_upt_Suc:
  "filter P [0..<Suc n] = (if P 0 then [0] else []) @ map Suc (filter (P \<circ> Suc) [0..<n])"
proof -
  have "[0..<Suc n] = 0 # map Suc [0..<n]"
    by (simp add: upt_conv_Cons map_Suc_upt del: upt_Suc)
  then show ?thesis by (simp add: filter_map del: upt_Suc)
qed

lemma s_for_each_parameters:
  assumes "list_all2 (param_has_key X D n) ps keys"
    and "set seen = (\<lambda>k. (JStr (fst k), JStr (snd k))) ` S"
  shows "filter is_ParameterDuplicateError
           (fst (fst (s_for_each ps (iter_parameter_in_list X D n) seen)))
         = map (\<lambda>i. ParameterDuplicateError (JStr (fst (keys ! i))))
             (filter (\<lambda>i. keys ! i \<in> S \<union> set (take i keys)) [0..<length keys])
       \<and> snd (fst (s_for_each ps (iter_parameter_in_list X D n) seen)) = Returns ()"
  using assms
proof (induction ps keys arbitrary: seen S rule: list_all2_induct)
  case Nil
  show ?case by (simp add: s_ret_def g_ret_def)
next
  case (Cons p ps key keys)
  from Cons.hyps(1) obtain pd where d: "deref D p = Returns pd"
    and r: "snd (ParameterValidator_iter_errors X D n pd) = Returns ()"
    and nm: "py_getitem pd ''name'' = Inr (JStr (fst key))"
    and lc: "py_getitem pd ''in'' = Inr (JStr (snd key))"
    by (auto simp: param_has_key_def split: outcome.splits)
  let ?k = "(JStr (fst key), JStr (snd key))"
  let ?seen' = "if ?k \<in> set seen then seen else seen @ [?k]"
  have inS: "?k \<in> set seen \<longleftrightarrow> key \<in> S"
    using Cons.prems by (auto simp: image_iff prod_eq_iff)
  have seen': "set ?seen' = (\<lambda>k. (JStr (fst k), JStr (snd k))) ` (insert key S)"
    using Cons.prems by auto
  note IH = Cons.IH[OF seen']
  note step = iter_parameter_in_list_step[OF d r nm lc, of seen]
  have idx: "filter (\<lambda>i. (key # keys) ! i \<in> S \<union> set (take i (key # keys))) [0..<length (key # keys)]
        = (if key \<in> S then [0] else [])
          @ map Suc (filter (\<lambda>i. keys ! i \<in> insert key S \<union> set (take i keys)) [0..<length keys])"
    by (simp add: filter_upt_Suc comp_def disj_ac del: upt_Suc)
  show ?case
    unfolding s_for_each.simps
      s_bind_step[where m = "iter_parameter_in_list X D n p" and s = seen, OF step] idx
    using IH by (simp add: inS comp_def)
qed

lemma ParametersValidator_twice_example:
  "ParametersValidator_iter_errors X D n
     (JArr [JObj [(''name'', JStr ''id''), (''in'', JStr ''path'')],
            JObj [(''name'', JStr ''id''), (''in'', JStr ''path'')]])
   = ([ParameterDuplicateError (JStr ''id'')], Returns ())"
  by (simp add: ParametersValidator_iter_errors_def iter_parameter_in_list_def
      ParameterValidator_iter_errors_def deref_non_ref has_key_def key_mem_def
      s_bind_def s_lift_def s_ret_def g_lift_def g_ret_def g_yield_def Let_def wraps_errors_def)

text \<open>
  C7: on a list of parameters that each dereference to an object with a string \<open>name\<close> and
  a string \<open>in\<close> and whose own validation runs to its end, the \<open>ParameterDuplicateError\<close>s
  of \<open>ParametersValidator.iter_errors\<close> are, in input order, one for each position whose
  \<open>(name, in)\<close> pair occurs at an earlier position, each naming the parameter at that
  position; and a list of two parameters with name \<open>id\<close> and location \<open>path\<close> yields
  exactly one \<open>ParameterDuplicateError\<close>, for \<open>id\<close>.
\<close>

theorem duplicate_parameters_reported_after_first:
  "(list_all2 (param_has_key X D n) ps keys \<longrightarrow>
      filter is_ParameterDuplicateError
           (fst (ParametersValidator_iter_errors X D n (JArr ps)))
         = map (\<lambda>i. ParameterDuplicateError (JStr (fst (keys ! i))))
             (filter (\<lambda>i. keys ! i \<in> set (take i keys)) [0..<length keys])
       \<and> snd (ParametersValidator_iter_errors X D n (JArr ps)) = Returns ())
   \<and> ParametersValidator_iter_errors X D n
        (JArr [JObj [(''name'', JStr ''id''), (''in'', JStr ''path'')],
               JObj [(''name'', JStr ''id''), (''in'', JStr ''path'')]])
      = ([ParameterDuplicateError (JStr ''id'')], Returns ())"
proof (intro conjI impI)
  assume h: "list_all2 (param_has_key X D n) ps keys"
  from s_for_each_parameters[OF h, of "[]" "{}"]
  show "filter is_ParameterDuplicateError
           (fst (ParametersValidator_iter_errors X D n (JArr ps)))
         = map (\<lambda>i. ParameterDuplicateError (JStr (fst (keys ! i))))
             (filter (\<lambda>i. keys ! i \<in> set (take i keys)) [0..<length keys])"
    by (simp add: ParametersValidator_iter_errors_def filter_kind_wraps kind_is_wrapped)
  from s_for_each_parameters[OF h, of "[]" "{}"]
  show "snd (ParametersValidator_iter_errors X D n (JArr ps)) = Returns ()"
    by (simp add: ParametersValidator_iter_errors_def)
next
  show "ParametersValidator_iter_errors X D n
        (JArr [JObj [(''name'', JStr ''id''), (''in'', JStr ''path'')],
               JObj [(''name'', JStr ''id''), (''in'', JStr ''path'')]])
      = ([ParameterDuplicateError (JStr ''id'')], Returns ())"
    by (rule ParametersValidator_twice_example)
qed

theorem duplicate_parameters_reported_after_first_witness:
  "list_all2 (param_has_key quiet_externals example_dereferencer 0)
     [JObj [(''name'', JStr ''id''), (''in'', JStr ''path'')],
      JObj [(''name'', JStr ''q''), (''in'', JStr ''query'')],
      JObj [(''name'', JStr ''id''), (''in'', JStr ''path'')]]
     [(''id'', ''path''), (''q'', ''query''), (''id'', ''path'')]
   \<and> filter is_ParameterDuplicateError
       (fst (ParametersValidator_iter_errors quiet_externals example_dereferencer 0
          (JArr [JObj [(''name'', JStr ''id''), (''in'', JStr ''path'')],
                 JObj [(''name'', JStr ''q''), (''in'', JStr ''query'')],
                 JObj [(''name'', JStr ''id''), (''in'', JStr ''path'')]])))
     = [ParameterDuplicateError (JStr ''id'')]"
proof -
  let ?ps = "[JObj [(''name'', JStr ''id''), (''in'', JStr ''path'')],
      JObj [(''name'', JStr ''q''), (''in'', JStr ''query'')],
      JObj [(''name'', JStr ''id''), (''in'', JStr ''path'')]]"
  let ?keys = "[(''id'', ''path''), (''q'', ''query''), (''id'', ''path'')]"
  have h: "list_all2 (param_has_key quiet_externals example_dereferencer 0) ?ps ?keys"
    by (simp add: param_has_key_def deref_non_ref has_key_def ParameterValidator_iter_errors_def
        g_ret_def)
  have i: "[0..<length ?keys] = [0, Suc 0, Suc (Suc 0)]"
    by (simp add: upt_conv_Cons)
  have "filter (\<lambda>i. ?keys ! i \<in> set (take i ?keys)) [0..<length ?keys] = [Suc (Suc 0)]"
    unfolding i by simp
  with duplicate_parameters_reported_after_first
    [of quiet_externals example_dereferencer 0 ?ps ?keys] h
  show ?thesis by simp
qed

section \<open>Kinds of error of the stateful loops\<close>

lemma list_all_s_bind:
  assumes "\<And>s. list_all P (fst (fst (m s)))" and "\<And>a s. list_all P (fst (fst (f a s)))"
  shows "list_all P (fst (fst (s_bind m f s)))"
proof (cases "snd (fst (m s))")
  case (Returns a)
  with assms show ?thesis by (simp add: s_bind_def Let_def)
qed (use assms in \<open>simp_all add: s_bind_def Let_def\<close>)

lemma list_all_s_for_each:
  assumes "\<And>x s. x \<in> set xs \<Longrightarrow> list_all P (fst (fst (body x s)))"
  shows "list_all P (fst (fst (s_for_each xs body s)))"
  using assms
proof (induction xs arbitrary: s)
  case Nil
  show ?case by (simp add: s_ret_def g_ret_def)
next
  case (Cons x xs)
  then show ?case by (simp add: list_all_s_bind)
qed

lemma iter_parameter_in_list_only:
  assumes P1: "\<And>v. P (OpenAPIValidationError v)" and P2: "\<And>xs. P (ExtraParametersError xs)"
    and P3: "\<And>x. P (ParameterDuplicateError x)"
  shows "list_all P (fst (fst (iter_parameter_in_list X D n p seen)))"
  unfolding iter_parameter_in_list_def
  by (intro list_all_s_bind)
     (auto simp: s_lift_def g_ret_def g_yield_def P3 intro!: ParameterValidator_only P1 P2)

lemma ParametersValidator_inner_only:
  assumes P1: "\<And>v. P (OpenAPIValidationError v)" and P2: "\<And>xs. P (ExtraParametersError xs)"
    and P3: "\<And>x. P (ParameterDuplicateError x)"
  shows "list_all P (fst (g_bind (g_lift (py_iter parameters)) (\<lambda>ps.
          fst (s_for_each ps (iter_parameter_in_list X D n) []))))"
  by (intro list_all_g_bind list_all_s_for_each iter_parameter_in_list_only P1 P2 P3) simp

lemma ParametersValidator_only:
  assumes P1: "\<And>v. P (OpenAPIValidationError v)" and P2: "\<And>xs. P (ExtraParametersError xs)"
    and P3: "\<And>x. P (ParameterDuplicateError x)"
  shows "list_all P (fst (ParametersValidator_iter_errors X D n parameters))"
proof -
  have w: "list_all is_wrapped (fst (g_bind (g_lift (py_iter parameters)) (\<lambda>ps.
          fst (s_for_each ps (iter_parameter_in_list X D n) []))))"
    by (rule ParametersValidator_inner_only) simp_all
  show ?thesis
    unfolding ParametersValidator_iter_errors_def wraps_errors_wrapped[OF w]
    by (rule ParametersValidator_inner_only[OF P1 P2 P3])
qed

lemma iter_operation_parameters_only:
  assumes P1: "\<And>v. P (OpenAPIValidationError v)" and P2: "\<And>xs. P (ExtraParametersError xs)"
    and P3: "\<And>x. P (ParameterDuplicateError x)"
    and P4: "\<And>p nm u. P (UnresolvableParameterError p nm u)"
  shows "list_all P (fst (iter_operation_parameters_errors X D n url name od pp))"
  unfolding iter_operation_parameters_errors_def
  by (intro list_all_g_bind list_all_for_each ParametersValidator_only P1 P2 P3)
     (auto simp: g_ret_def g_yield_def P4)

section \<open>Operation validator\<close>

lemma OperationValidator_on_object:
  assumes "deref D operation = Returns (JObj kvs)"
  shows "OperationValidator_iter_errors X D n url name operation path_parameters seen_ids =
     ((map wrap_error
         ((if dict_get kvs ''operationId'' JNull \<noteq> JNull
              \<and> py_mem (dict_get kvs ''operationId'' JNull) seen_ids
           then [DuplicateOperationIDError (dict_get kvs ''operationId'' JNull) name url]
           else [])
          @ fst (iter_operation_parameters_errors X D n url name (JObj kvs)
                   (if py_truthy path_parameters then path_parameters else JArr []))),
       snd (iter_operation_parameters_errors X D n url name (JObj kvs)
                   (if py_truthy path_parameters then path_parameters else JArr []))),
      seen_ids @ [dict_get kvs ''operationId'' JNull])"
  by (simp add: OperationValidator_iter_errors_def assms s_bind_def s_lift_def Let_def
      g_yield_def g_ret_def g_lift_def wraps_errors_def)

lemma filter_dup_wraps [simp]:
  "filter is_DuplicateOperationIDError (map wrap_error es) = filter is_DuplicateOperationIDError es"
  by (rule filter_kind_wraps) (simp_all add: kind_is_wrapped)

lemma filter_unres_wraps [simp]:
  "filter is_UnresolvableParameterError (map wrap_error es)
     = filter is_UnresolvableParameterError es"
  by (rule filter_kind_wraps) (simp_all add: kind_is_wrapped)

lemma iter_operation_parameters_no_dup [simp]:
  "filter is_DuplicateOperationIDError
     (fst (iter_operation_parameters_errors X D n url name od pp)) = []"
  by (rule filter_empty_list_all, rule iter_operation_parameters_only) simp_all

lemma ParametersValidator_no_unresolvable [simp]:
  "filter is_UnresolvableParameterError (fst (ParametersValidator_iter_errors X D n ps)) = []"
  by (rule filter_empty_list_all, rule ParametersValidator_only) simp_all

text \<open>
  C3: on an operation that dereferences to an object, \<open>OperationValidator.iter_errors\<close>
  yields a \<open>DuplicateOperationIDError\<close> (exactly one, naming the id, the method and the url)
  exactly when \<open>operationId\<close> is not \<open>None\<close> and is already in the registry, and in every
  case it leaves the registry extended by the id, \<open>None\<close> included. So two operations
  without \<open>operationId\<close> validated one after the other yield no such error, and the second
  of two operations with the same (string) id yields exactly one.
\<close>

theorem duplicate_operation_id_iff_seen:
  "(deref D operation = Returns (JObj kvs) \<longrightarrow>
      filter is_DuplicateOperationIDError
        (fst (fst (OperationValidator_iter_errors X D n url name operation pp seen_ids)))
      = (if dict_get kvs ''operationId'' JNull \<noteq> JNull
            \<and> py_mem (dict_get kvs ''operationId'' JNull) seen_ids
         then [DuplicateOperationIDError (dict_get kvs ''operationId'' JNull) name url]
         else [])
      \<and> snd (OperationValidator_iter_errors X D n url name operation pp seen_ids)
          = seen_ids @ [dict_get kvs ''operationId'' JNull])
   \<and> (deref D op1 = Returns (JObj kvs1) \<and> deref D op2 = Returns (JObj kvs2)
       \<and> map_of kvs1 ''operationId'' = None \<and> map_of kvs2 ''operationId'' = None \<longrightarrow>
       filter is_DuplicateOperationIDError
        (fst (fst (OperationValidator_iter_errors X D n url1 name1 op1 pp1 seen_ids))) = []
       \<and> filter is_DuplicateOperationIDError
        (fst (fst (OperationValidator_iter_errors X D n url2 name2 op2 pp2
           (snd (OperationValidator_iter_errors X D n url1 name1 op1 pp1 seen_ids))))) = [])
   \<and> (deref D op1 = Returns (JObj kvs1) \<and> deref D op2 = Returns (JObj kvs2)
       \<and> map_of kvs1 ''operationId'' = Some (JStr i) \<and> map_of kvs2 ''operationId'' = Some (JStr i)
       \<longrightarrow>
       filter is_DuplicateOperationIDError
        (fst (fst (OperationValidator_iter_errors X D n url2 name2 op2 pp2
           (snd (OperationValidator_iter_errors X D n url1 name1 op1 pp1 seen_ids)))))
       = [DuplicateOperationIDError (JStr i) name2 url2])"
  by (auto simp: OperationValidator_on_object dict_get_def)

theorem duplicate_operation_id_iff_seen_witness:
  "deref example_dereferencer (JObj [(''operationId'', JStr ''listItems'')])
     = Returns (JObj [(''operationId'', JStr ''listItems'')])
   \<and> filter is_DuplicateOperationIDError
        (fst (fst (OperationValidator_iter_errors quiet_externals example_dereferencer 0
           ''/b'' ''get'' (JObj [(''operationId'', JStr ''listItems'')]) (JArr [])
           [JNull, JStr ''listItems''])))
      = [DuplicateOperationIDError (JStr ''listItems'') ''get'' ''/b'']
   \<and> snd (OperationValidator_iter_errors quiet_externals example_dereferencer 0
           ''/b'' ''get'' (JObj [(''operationId'', JStr ''listItems'')]) (JArr [])
           [JNull, JStr ''listItems''])
      = [JNull, JStr ''listItems'', JStr ''listItems'']"
proof -
  have d: "deref example_dereferencer (JObj [(''operationId'', JStr ''listItems'')])
     = Returns (JObj [(''operationId'', JStr ''listItems'')])"
    by (simp add: deref_non_ref has_key_def)
  from duplicate_operation_id_iff_seen
    [of example_dereferencer "JObj [(''operationId'', JStr ''listItems'')]"
        "[(''operationId'', JStr ''listItems'')]" quiet_externals 0 "''/b''" "''get''" "JArr []"
        "[JNull, JStr ''listItems'']"] d
  show ?thesis by (simp add: dict_get_def)
qed

section \<open>Path parameters of the URL template\<close>

lemma path_param_names_of_declared:
  assumes "list_all2 (param_declares D) ps decls"
  shows "path_param_names_of D ps
           = Returns (map (\<lambda>k. JStr (fst k)) (filter (\<lambda>k. snd k = ''path'') decls))"
  using assms
proof (induction ps decls rule: list_all2_induct)
  case Nil
  show ?case by simp
next
  case (Cons p ps key keys)
  from Cons.hyps(1) obtain pd where "deref D p = Returns pd"
    and "py_getitem pd ''name'' = Inr (JStr (fst key))"
    and "py_getitem pd ''in'' = Inr (JStr (snd key))"
    by (auto simp: param_declares_def split: outcome.splits)
  with Cons.IH show ?case by simp
qed

lemma get_path_param_names_declared:
  assumes "list_all2 (param_declares D) ps decls"
  shows "get_path_param_names D (JArr ps)
           = Returns (map (\<lambda>k. JStr (fst k)) (filter (\<lambda>k. snd k = ''path'') decls))"
  by (simp add: get_path_param_names_def path_param_names_of_declared[OF assms])

lemma param_has_key_declares: "param_has_key X D n p key \<Longrightarrow> param_declares D p key"
  by (auto simp: param_has_key_def param_declares_def split: outcome.splits)

lemma for_each_yield_unresolvable:
  "for_each paths (\<lambda>path. if c path then g_yield (UnresolvableParameterError path name url)
                          else g_ret ())
   = (map (\<lambda>path. UnresolvableParameterError path name url) (filter c paths), Returns ())"
  by (induction paths) (simp_all add: g_ret_def g_yield_def)

lemma truthy_list: "(if py_truthy (JArr pps) then JArr pps else JArr []) = JArr pps"
  by simp

lemma ParametersValidator_returns:
  assumes "list_all2 (param_has_key X D n) ps keys"
  shows "snd (ParametersValidator_iter_errors X D n (JArr ps)) = Returns ()"
  using s_for_each_parameters[OF assms, of "[]" "{}"]
  by (simp add: ParametersValidator_iter_errors_def)

lemma iter_operation_parameters_declared:
  assumes ops: "dict_get kvs ''parameters'' (JArr []) = JArr ops"
    and d1: "list_all2 (param_declares D) pps decls1"
    and d2: "list_all2 (param_has_key X D n) ops decls2"
    and fp: "Formatter_parse X url = Returns items"
  shows "filter is_UnresolvableParameterError
           (fst (iter_operation_parameters_errors X D n url name (JObj kvs) (JArr pps)))
         = map (\<lambda>path. UnresolvableParameterError path name url)
             (filter (\<lambda>path. (path, ''path'') \<notin> set decls1 \<union> set decls2) (placeholders items))
       \<and> snd (iter_operation_parameters_errors X D n url name (JObj kvs) (JArr pps)) = Returns ()"
proof -
  from d2 have d2': "list_all2 (param_declares D) ops decls2"
    by (rule list_all2_mono) (rule param_has_key_declares)
  let ?names = "map fst (filter (\<lambda>k. snd k = ''path'') decls1)
                @ map fst (filter (\<lambda>k. snd k = ''path'') decls2)"
  have names: "map (\<lambda>k. JStr (fst k)) (filter (\<lambda>k. snd k = ''path'') decls1)
         @ map (\<lambda>k. JStr (fst k)) (filter (\<lambda>k. snd k = ''path'') decls2) = map JStr ?names"
    by simp
  have mem: "py_mem (JStr path) (py_dedupe [] (map JStr ?names))
               \<longleftrightarrow> (path, ''path'') \<in> set decls1 \<union> set decls2" for path
  proof -
    have "py_mem (JStr path) (py_dedupe [] (map JStr ?names)) \<longleftrightarrow> path \<in> set ?names"
      unfolding py_mem_JStr py_dedupe_strings by auto
    also have "\<dots> \<longleftrightarrow> (path, ''path'') \<in> set decls1 \<union> set decls2"
      by force
    finally show ?thesis .
  qed
  have mem2: "JStr path \<in> set (py_dedupe [] (map JStr ?names))
               \<longleftrightarrow> (path, ''path'') \<in> set decls1 \<or> (path, ''path'') \<in> set decls2" for path
    using mem[of path] by simp
  have urls: "get_path_params_from_url X url = Returns (placeholders items)"
    by (simp add: get_path_params_from_url_def fp placeholders_def)
  show ?thesis
    unfolding iter_operation_parameters_errors_def
    by (simp add: ops g_bind_returning[OF ParametersValidator_returns[OF d2]]
        get_path_param_names_declared[OF d1] get_path_param_names_declared[OF d2']
        names py_set_strings urls for_each_yield_unresolvable mem2
        del: map_append map_map)
qed

lemma OperationValidator_unresolved_example:
  assumes "Formatter_parse X ''/items/{id}'' = Returns [Some ''id'']"
  shows "fst (OperationValidator_iter_errors X D n ''/items/{id}'' ''get'' (JObj []) (JArr [])
               seen_ids)
           = ([UnresolvableParameterError ''id'' ''get'' ''/items/{id}''], Returns ())"
    and "fst (OperationValidator_iter_errors X D n ''/items/{id}'' ''get'' (JObj [])
               (JArr [JObj [(''name'', JStr ''id''), (''in'', JStr ''path'')]]) seen_ids)
           = ([], Returns ())"
    and "fst (OperationValidator_iter_errors X D n ''/items/{id}'' ''get''
               (JObj [(''parameters'',
                       JArr [JObj [(''name'', JStr ''id''), (''in'', JStr ''path'')]])])
               (JArr []) seen_ids)
           = ([], Returns ())"
  by (simp_all add: OperationValidator_on_object deref_non_ref has_key_def dict_get_def
      iter_operation_parameters_errors_def ParametersValidator_iter_errors_def
      iter_parameter_in_list_def ParameterValidator_iter_errors_def
      get_path_param_names_def get_path_params_from_url_def assms py_set_def key_mem_def
      s_bind_def s_lift_def s_ret_def g_lift_def g_ret_def g_yield_def Let_def wraps_errors_def)

text \<open>
  C4: for an operation that dereferences to an object, with path-level and operation-level
  parameters that each dereference to an object with a string \<open>name\<close> and a string \<open>in\<close>
  (the operation's own parameters being validated to the end), the
  \<open>UnresolvableParameterError\<close>s of \<open>OperationValidator.iter_errors\<close> are, in the order of the
  URL template, one for each placeholder whose name is declared with location \<open>path\<close> at
  neither level. On \<open>/items/{id}\<close> with no parameter declared there is exactly one, for \<open>id\<close>;
  declaring \<open>id\<close> with \<open>in: path\<close> at the path-item level or at the operation level leaves none.
\<close>

theorem unresolved_placeholders_reported:
  "(deref D operation = Returns (JObj kvs)
    \<and> dict_get kvs ''parameters'' (JArr []) = JArr ops
    \<and> list_all2 (param_declares D) pps decls1
    \<and> list_all2 (param_has_key X D n) ops decls2
    \<and> Formatter_parse X url = Returns items
    \<longrightarrow>
      filter is_UnresolvableParameterError
        (fst (fst (OperationValidator_iter_errors X D n url name operation (JArr pps) seen_ids)))
      = map (\<lambda>path. UnresolvableParameterError path name url)
          (filter (\<lambda>path. (path, ''path'') \<notin> set decls1 \<union> set decls2) (placeholders items)))
   \<and> (Formatter_parse X ''/items/{id}'' = Returns [Some ''id''] \<longrightarrow>
        fst (OperationValidator_iter_errors X D n ''/items/{id}'' ''get'' (JObj []) (JArr [])
               seen_ids)
           = ([UnresolvableParameterError ''id'' ''get'' ''/items/{id}''], Returns ())
      \<and> fst (OperationValidator_iter_errors X D n ''/items/{id}'' ''get'' (JObj [])
               (JArr [JObj [(''name'', JStr ''id''), (''in'', JStr ''path'')]]) seen_ids)
           = ([], Returns ())
      \<and> fst (OperationValidator_iter_errors X D n ''/items/{id}'' ''get''
               (JObj [(''parameters'',
                       JArr [JObj [(''name'', JStr ''id''), (''in'', JStr ''path'')]])])
               (JArr []) seen_ids)
           = ([], Returns ()))"
proof (intro conjI impI)
  assume h: "deref D operation = Returns (JObj kvs)
    \<and> dict_get kvs ''parameters'' (JArr []) = JArr ops
    \<and> list_all2 (param_declares D) pps decls1
    \<and> list_all2 (param_has_key X D n) ops decls2
    \<and> Formatter_parse X url = Returns items"
  then have d: "deref D operation = Returns (JObj kvs)"
    and ops: "dict_get kvs ''parameters'' (JArr []) = JArr ops"
    and d1: "list_all2 (param_declares D) pps decls1"
    and d2: "list_all2 (param_has_key X D n) ops decls2"
    and fp: "Formatter_parse X url = Returns items"
    by simp_all
  show "filter is_UnresolvableParameterError
        (fst (fst (OperationValidator_iter_errors X D n url name operation (JArr pps) seen_ids)))
      = map (\<lambda>path. UnresolvableParameterError path name url)
          (filter (\<lambda>path. (path, ''path'') \<notin> set decls1 \<union> set decls2) (placeholders items))"
    unfolding OperationValidator_on_object[OF d] truthy_list
    using iter_operation_parameters_declared[OF ops d1 d2 fp, of name]
    by simp
next
  assume p: "Formatter_parse X ''/items/{id}'' = Returns [Some ''id'']"
  show "fst (OperationValidator_iter_errors X D n ''/items/{id}'' ''get'' (JObj []) (JArr [])
               seen_ids)
           = ([UnresolvableParameterError ''id'' ''get'' ''/items/{id}''], Returns ())"
    by (rule OperationValidator_unresolved_example(1)[OF p])
  show "fst (OperationValidator_iter_errors X D n ''/items/{id}'' ''get'' (JObj [])
               (JArr [JObj [(''name'', JStr ''id''), (''in'', JStr ''path'')]]) seen_ids)
           = ([], Returns ())"
    by (rule OperationValidator_unresolved_example(2)[OF p])
  show "fst (OperationValidator_iter_errors X D n ''/items/{id}'' ''get''
               (JObj [(''parameters'',
                       JArr [JObj [(''name'', JStr ''id''), (''in'', JStr ''path'')]])])
               (JArr []) seen_ids)
           = ([], Returns ())"
    by (rule OperationValidator_unresolved_example(3)[OF p])
qed

lemma plain_fields_items_id: "plain_fields False ''/items/{id}'' = Returns [Some ''id'']"
  by simp

lemma plain_fields_two: "plain_fields False ''/a/{x}/b/{y}'' = Returns [Some ''x'', Some ''y'']"
  by simp

theorem unresolved_placeholders_reported_witness:
  "Formatter_parse quiet_externals ''/items/{id}'' = Returns [Some ''id'']
   \<and> fst (OperationValidator_iter_errors quiet_externals example_dereferencer 0
            ''/items/{id}'' ''get'' (JObj []) (JArr []) [])
       = ([UnresolvableParameterError ''id'' ''get'' ''/items/{id}''], Returns ())
   \<and> filter is_UnresolvableParameterError
        (fst (fst (OperationValidator_iter_errors quiet_externals example_dereferencer 0
           ''/a/{x}/b/{y}'' ''get''
           (JObj [(''parameters'', JArr [JObj [(''name'', JStr ''y''), (''in'', JStr ''query'')]])])
           (JArr [JObj [(''name'', JStr ''x''), (''in'', JStr ''path'')]]) [])))
       = [UnresolvableParameterError ''y'' ''get'' ''/a/{x}/b/{y}'']"
proof -
  let ?kvs = "[(''parameters'', JArr [JObj [(''name'', JStr ''y''), (''in'', JStr ''query'')]])]"
  have p: "Formatter_parse quiet_externals ''/items/{id}'' = Returns [Some ''id'']"
    by (simp add: quiet_externals_def)
  have p2: "Formatter_parse quiet_externals ''/a/{x}/b/{y}'' = Returns [Some ''x'', Some ''y'']"
    by (simp add: quiet_externals_def)
  have d: "deref example_dereferencer (JObj ?kvs) = Returns (JObj ?kvs)"
    by (simp add: deref_non_ref has_key_def)
  have o: "dict_get ?kvs ''parameters'' (JArr [])
             = JArr [JObj [(''name'', JStr ''y''), (''in'', JStr ''query'')]]"
    by (simp add: dict_get_def)
  have d1: "list_all2 (param_declares example_dereferencer)
              [JObj [(''name'', JStr ''x''), (''in'', JStr ''path'')]] [(''x'', ''path'')]"
    by (simp add: param_declares_def deref_non_ref has_key_def)
  have d2: "list_all2 (param_has_key quiet_externals example_dereferencer 0)
              [JObj [(''name'', JStr ''y''), (''in'', JStr ''query'')]] [(''y'', ''query'')]"
    by (simp add: param_has_key_def deref_non_ref has_key_def ParameterValidator_iter_errors_def
        g_ret_def)
  have f: "filter (\<lambda>path. (path, ''path'') \<notin> set [(''x'', ''path'')] \<union> set [(''y'', ''query'')])
             (placeholders [Some ''x'', Some ''y'']) = [''y'']"
    by (simp add: placeholders_def)
  from unresolved_placeholders_reported
    [where D = example_dereferencer and operation = "JObj ?kvs" and kvs = ?kvs
       and ops = "[JObj [(''name'', JStr ''y''), (''in'', JStr ''query'')]]"
       and pps = "[JObj [(''name'', JStr ''x''), (''in'', JStr ''path'')]]"
       and ?decls1.0 = "[(''x'', ''path'')]" and X = quiet_externals and n = 0
       and ?decls2.0 = "[(''y'', ''query'')]" and url = "''/a/{x}/b/{y}''"
       and items = "[Some ''x'', Some ''y'']" and name = "''get''" and seen_ids = "[]"]
    p p2 d o d1 d2 f
  show ?thesis by simp
qed

section \<open>Path item validator\<close>

lemma deref_path_item_ref:
  "deref path_item_dereferencer (ref_to ''#/p'') = Returns (JObj [(''get'', JObj [])])"
proof -
  have "dereference path_item_resolver [''''] (ref_to ''#/p'') = Some (Inr (JObj [(''get'', JObj [])]))"
    by (rule within_sound[of 0])
       (simp add: dereference_within.simps path_item_resolver_def ref_to_def has_key_def)
  then show ?thesis by (simp add: deref_def path_item_dereferencer_def)
qed

lemma PathItemValidator_on_non_reference:
  assumes "\<not> is_ref (JObj kvs)"
  shows "PathItemValidator_iter_errors X D n url (JObj kvs) registry =
     (let r = s_bind (s_lift (ParametersValidator_iter_errors X D n
                                (dict_get kvs ''parameters'' (JArr [])))) (\<lambda>_.
               s_for_each (filter (\<lambda>field. fst field \<in> set OPERATIONS) kvs) (\<lambda>field.
                 OperationValidator_iter_errors X D n url (fst field) (snd field)
                   (dict_get kvs ''parameters'' (JArr [])))) registry
      in (wraps_errors (fst r), snd r))"
proof -
  have ret: "s_bind (s_ret a) f = f a"
    for a :: unit and f :: "unit \<Rightarrow> ('v error, json list, unit) sgen"
    by (rule ext) (simp add: s_bind_def s_ret_def g_ret_def Let_def)
  have lft: "s_bind (s_lift (g_lift (Returns a))) f = f a"
    for a :: "(string \<times> json) list"
      and f :: "(string \<times> json) list \<Rightarrow> ('v error, json list, unit) sgen"
    by (rule ext) simp
  have skip: "s_for_each items (\<lambda>field.
               if fst field \<notin> set OPERATIONS then s_ret ()
               else body field)
      = s_for_each (filter (\<lambda>field. fst field \<in> set OPERATIONS) items) body"
    for items and body :: "string \<times> json \<Rightarrow> ('v error, json list, unit) sgen"
    by (induction items) (simp_all add: ret)
  show ?thesis
    by (simp add: PathItemValidator_iter_errors_def deref_non_ref[OF assms] skip lft Let_def
        split_def cong: if_cong)
qed

text \<open>
  C2 at a path item that is a reference node: \<open>#/p\<close> resolves to \<open>{"get": {}}\<close>, so the
  dereferenced path item has a \<open>get\<close> operation, whose placeholder \<open>id\<close> is unresolved (as
  the run on the dereferenced node reports); but the run on the reference node itself
  visits no operation: it yields nothing and leaves the registry empty, because the loop
  reads the entries of the node it was given, not of the dereferenced one.
\<close>

theorem path_item_reference_operations_skipped:
  "deref path_item_dereferencer (ref_to ''#/p'') = Returns (JObj [(''get'', JObj [])])
   \<and> PathItemValidator_iter_errors quiet_externals path_item_dereferencer 0 ''/items/{id}''
        (ref_to ''#/p'') []
      = (([], Returns ()), [])
   \<and> PathItemValidator_iter_errors quiet_externals path_item_dereferencer 0 ''/items/{id}''
        (JObj [(''get'', JObj [])]) []
      = (([UnresolvableParameterError ''id'' ''get'' ''/items/{id}''], Returns ()), [JNull])"
proof (intro conjI)
  show "deref path_item_dereferencer (ref_to ''#/p'') = Returns (JObj [(''get'', JObj [])])"
    by (rule deref_path_item_ref)
  have pv: "ParametersValidator_iter_errors quiet_externals path_item_dereferencer 0 (JArr [])
              = ([], Returns ())"
    by (simp add: ParametersValidator_iter_errors_def s_ret_def g_ret_def wraps_errors_def)
  have it: "py_items (ref_to ''#/p'') = Returns [(''$ref'', JStr ''#/p'')]"
    by (simp add: ref_to_def)
  show "PathItemValidator_iter_errors quiet_externals path_item_dereferencer 0 ''/items/{id}''
        (ref_to ''#/p'') [] = (([], Returns ()), [])"
    by (simp add: PathItemValidator_iter_errors_def deref_path_item_ref dict_get_def pv it
        s_bind_def s_lift_def s_ret_def g_lift_def g_ret_def Let_def wraps_errors_def
        OPERATIONS_def)
  have fp: "Formatter_parse quiet_externals ''/items/{id}'' = Returns [Some ''id'']"
    by (simp add: quiet_externals_def)
  have ov: "OperationValidator_iter_errors quiet_externals path_item_dereferencer 0
              ''/items/{id}'' ''get'' (JObj []) (JArr []) []
            = (([UnresolvableParameterError ''id'' ''get'' ''/items/{id}''], Returns ()), [JNull])"
    by (simp add: OperationValidator_on_object deref_non_ref has_key_def dict_get_def
      iter_operation_parameters_errors_def pv
      get_path_param_names_def get_path_params_from_url_def py_set_def fp
      g_lift_def g_ret_def g_yield_def)
  show "PathItemValidator_iter_errors quiet_externals path_item_dereferencer 0 ''/items/{id}''
        (JObj [(''get'', JObj [])]) []
      = (([UnresolvableParameterError ''id'' ''get'' ''/items/{id}''], Returns ()), [JNull])"
    by (simp add: PathItemValidator_iter_errors_def deref_non_ref has_key_def dict_get_def pv ov
        s_bind_def s_lift_def s_ret_def g_lift_def g_ret_def Let_def wraps_errors_def
        OPERATIONS_def)
qed

section \<open>validate\<close>

text \<open>
  C9: \<open>validate\<close> raises the error \<open>e\<close> exactly when \<open>e\<close> is the first error that
  \<open>iter_errors\<close> yields; it returns exactly when \<open>iter_errors\<close> ends having yielded nothing;
  and it raises no error exactly when \<open>iter_errors\<close> yields none (an exception that aborts
  \<open>iter_errors\<close> before its first error is not an error of the sequence: it passes through).
\<close>

theorem validate_raises_first_error:
  "(validate V n spec spec_url = RaisesError e
      \<longleftrightarrow> (\<exists>errs out. SpecValidator_iter_errors V n spec spec_url = (e # errs, out)))
   \<and> (validate V n spec spec_url = ReturnsNone
      \<longleftrightarrow> SpecValidator_iter_errors V n spec spec_url = ([], Returns ()))
   \<and> ((\<forall>err. validate V n spec spec_url \<noteq> RaisesError err)
      \<longleftrightarrow> fst (SpecValidator_iter_errors V n spec spec_url) = [])"
proof -
  obtain errs out where g: "SpecValidator_iter_errors V n spec spec_url = (errs, out)"
    by (cases "SpecValidator_iter_errors V n spec spec_url")
  show ?thesis
  proof (cases errs)
    case Nil
    then show ?thesis using g by (cases out) (simp_all add: validate_def)
  next
    case (Cons a as)
    then show ?thesis using g by (simp add: validate_def)
  qed
qed

lemma quiet_paths:
  "PathsValidator_iter_errors quiet_externals
      \<lparr>resolver_manager = chain_resolver, scopes_stack = ['''']\<rparr> 0
      (JObj [(''/items/{id}'', JObj [(''get'', JObj [])])]) []
   = (([UnresolvableParameterError ''id'' ''get'' ''/items/{id}''], Returns ()), [JNull])"
proof -
  let ?D = "\<lparr>resolver_manager = chain_resolver, scopes_stack = ['''']\<rparr>"
  have pv: "ParametersValidator_iter_errors quiet_externals ?D 0 (JArr []) = ([], Returns ())"
    by (simp add: ParametersValidator_iter_errors_def s_ret_def g_ret_def wraps_errors_def)
  have fp: "Formatter_parse quiet_externals ''/items/{id}'' = Returns [Some ''id'']"
    by (simp add: quiet_externals_def)
  have ov: "OperationValidator_iter_errors quiet_externals ?D 0
              ''/items/{id}'' ''get'' (JObj []) (JArr []) []
            = (([UnresolvableParameterError ''id'' ''get'' ''/items/{id}''], Returns ()), [JNull])"
    by (simp add: OperationValidator_on_object deref_non_ref has_key_def dict_get_def
      iter_operation_parameters_errors_def pv
      get_path_param_names_def get_path_params_from_url_def py_set_def fp
      g_lift_def g_ret_def g_yield_def)
  have pi: "PathItemValidator_iter_errors quiet_externals ?D 0 ''/items/{id}''
        (JObj [(''get'', JObj [])]) []
      = (([UnresolvableParameterError ''id'' ''get'' ''/items/{id}''], Returns ()), [JNull])"
    by (simp add: PathItemValidator_iter_errors_def deref_non_ref has_key_def dict_get_def pv ov
        s_bind_def s_lift_def s_ret_def g_lift_def g_ret_def Let_def wraps_errors_def
        OPERATIONS_def)
  have pa: "PathValidator_iter_errors quiet_externals ?D 0 ''/items/{id}''
        (JObj [(''get'', JObj [])]) []
      = (([UnresolvableParameterError ''id'' ''get'' ''/items/{id}''], Returns ()), [JNull])"
    by (simp add: PathValidator_iter_errors_def deref_non_ref has_key_def pi
        s_bind_def s_lift_def g_lift_def Let_def wraps_errors_def)
  show ?thesis
    by (simp add: PathsValidator_iter_errors_def deref_non_ref has_key_def pa
        s_bind_def s_lift_def s_ret_def g_lift_def g_ret_def Let_def wraps_errors_def)
qed

lemma quiet_components:
  "ComponentsValidator_iter_errors quiet_externals D n (JObj []) = ([], Returns ())"
  by (simp add: ComponentsValidator_iter_errors_def SchemasValidator_iter_errors_def
      deref_non_ref has_key_def dict_get_def g_ret_def wraps_errors_def)

theorem validate_raises_first_error_witness:
  "SpecValidator_iter_errors quiet_validator 0
      (JObj [(''paths'', JObj [(''/items/{id}'', JObj [(''get'', JObj [])])])]) ''''
     = ([UnresolvableParameterError ''id'' ''get'' ''/items/{id}''], Returns ())
   \<and> validate quiet_validator 0
      (JObj [(''paths'', JObj [(''/items/{id}'', JObj [(''get'', JObj [])])])]) ''''
     = RaisesError (UnresolvableParameterError ''id'' ''get'' ''/items/{id}'')"
proof -
  have i: "SpecValidator_iter_errors quiet_validator 0
      (JObj [(''paths'', JObj [(''/items/{id}'', JObj [(''get'', JObj [])])])]) ''''
     = ([UnresolvableParameterError ''id'' ''get'' ''/items/{id}''], Returns ())"
    by (simp add: SpecValidator_iter_errors_def quiet_validator_def quiet_paths quiet_components
        dict_get_def Let_def wraps_errors_def)
  with validate_raises_first_error
    [of quiet_validator 0
        "JObj [(''paths'', JObj [(''/items/{id}'', JObj [(''get'', JObj [])])])]" "''''"
        "UnresolvableParameterError ''id'' ''get'' ''/items/{id}''"]
  show ?thesis by simp
qed

section \<open>The recursion bound\<close>

text \<open>
  A run of \<open>SchemaValidator.iter_errors\<close> that ends within the bound is the same under every
  larger bound: the bound cuts runs off, it does not change them.
\<close>

lemma for_each_within_bound:
  assumes "\<And>x. x \<in> set xs \<Longrightarrow> snd (f x) \<noteq> OutOfFuel \<Longrightarrow> g x = f x"
    and "snd (for_each xs f) \<noteq> OutOfFuel"
  shows "for_each xs g = for_each xs f"
  using assms
proof (induction xs)
  case Nil
  show ?case by simp
next
  case (Cons x xs)
  show ?case
  proof (cases "snd (f x)")
    case (Returns u)
    with Cons.prems(2) have rest: "snd (for_each xs f) \<noteq> OutOfFuel"
      by (simp add: snd_g_bind)
    have "g x = f x" using Cons.prems(1)[of x] Returns by simp
    moreover have "for_each xs g = for_each xs f"
      using Cons.IH Cons.prems(1) rest by simp
    ultimately show ?thesis by simp
  next
    case (Raises e)
    then have "g x = f x" using Cons.prems(1)[of x] by simp
    with Raises show ?thesis by (simp add: g_bind_def)
  next
    case Diverges
    then have "g x = f x" using Cons.prems(1)[of x] by simp
    with Diverges show ?thesis by (simp add: g_bind_def)
  next
    case OutOfFuel
    with Cons.prems(2) show ?thesis by (simp add: snd_g_bind)
  qed
qed

lemma SchemaValidator_within_bound:
  "snd (SchemaValidator_iter_errors X D n schema rp) \<noteq> OutOfFuel \<Longrightarrow>
   SchemaValidator_iter_errors X D (Suc n) schema rp = SchemaValidator_iter_errors X D n schema rp"
proof (induction n arbitrary: schema rp)
  case 0
  then show ?case by simp
next
  case (Suc n)
  show ?case
  proof (cases "deref D schema")
    case (Returns v)
    show ?thesis
    proof (cases v)
      case (JObj kvs)
      note d = Returns[unfolded JObj]
      from Suc.prems have inner: "snd (iter_allOf_errors X D n kvs) \<noteq> OutOfFuel"
        unfolding SchemaValidator_on_object_plain[OF d]
        by (cases "snd (iter_allOf_errors X D n kvs)") (auto simp: snd_g_bind)
      have "iter_allOf_errors X D (Suc n) kvs = iter_allOf_errors X D n kvs"
      proof (cases "has_key kvs ''allOf''")
        case False
        then show ?thesis by (simp add: iter_allOf_errors_def)
      next
        case True
        show ?thesis
        proof (cases "o_bind (of_sum (py_getitem (JObj kvs) ''allOf'')) py_iter")
          case (Returns members)
          from inner True Returns have
            "snd (for_each members (\<lambda>m. SchemaValidator_iter_errors X D n m False)) \<noteq> OutOfFuel"
            by (simp add: iter_allOf_errors_def)
          then have "for_each members (\<lambda>m. SchemaValidator_iter_errors X D (Suc n) m False)
                   = for_each members (\<lambda>m. SchemaValidator_iter_errors X D n m False)"
            by (intro for_each_within_bound Suc.IH)
          with True Returns show ?thesis by (simp add: iter_allOf_errors_def)
        qed (use True in \<open>simp_all add: iter_allOf_errors_def\<close>)
      qed
      then show ?thesis
        by (simp add: SchemaValidator_on_object_plain[OF d])
    qed (simp_all add: SchemaValidator_Suc Returns)
  qed (simp_all add: SchemaValidator_Suc)
qed

end
